theory Spec2Isabelle
  imports Main "HOL-Library.Multiset"
begin

text \<open>
  A model of the array helpers (\<open>utils/array/array.ts\<close>) and of the wrapper around
  \<open>localStorage\<close> (\<open>utils/localStorage/localStorage.ts\<close>). A function of the source
  whose name is \<open>_name\<close> is the constant \<open>name\<close>. A function that can throw returns a
  sum, the exception on the left; a function that writes to the storage returns the
  environment it leaves.
\<close>

section \<open>JavaScript values\<close>

text \<open>
  The values the utilities handle: the JSON values and \<open>undefined\<close>. Numbers are
  integers: fractions and the IEEE special values (\<open>NaN\<close>, the infinities, the
  negative zero) are not modelled. An object is the list of its own enumerable
  properties, in property order; an array is the list of its elements. Functions,
  symbols, accessors and the members inherited from a prototype are outside the model.
\<close>

datatype jsval =
    JUndefined
  | JNull
  | JBool bool
  | JNum int
  | JStr string
  | JArr "jsval list"
  | JObj "(string \<times> jsval) list"

datatype js_exn = SyntaxError | TypeError

text \<open>\<open>!v\<close> is false exactly on the truthy values.\<close>

fun truthy :: "jsval \<Rightarrow> bool" where
  "truthy JUndefined = False"
| "truthy JNull = False"
| "truthy (JBool b) = b"
| "truthy (JNum n) = (n \<noteq> 0)"
| "truthy (JStr s) = (s \<noteq> [])"
| "truthy (JArr xs) = True"
| "truthy (JObj fs) = True"

text \<open>
  \<open>a === b\<close>. Primitives are compared by value. Objects and arrays are compared by
  reference; the values compared here always come from different places (a fresh
  \<open>JSON.parse\<close> result and a caller's argument), so two of them are never the same
  reference.
\<close>

fun strict_eq :: "jsval \<Rightarrow> jsval \<Rightarrow> bool" where
  "strict_eq JUndefined JUndefined = True"
| "strict_eq JNull JNull = True"
| "strict_eq (JBool a) (JBool b) = (a = b)"
| "strict_eq (JNum a) (JNum b) = (a = b)"
| "strict_eq (JStr a) (JStr b) = (a = b)"
| "strict_eq a b = False"

text \<open>\<open>v == null\<close>: true for \<open>null\<close> and \<open>undefined\<close> only.\<close>

fun loose_null :: "jsval \<Rightarrow> bool" where
  "loose_null JUndefined = True"
| "loose_null JNull = True"
| "loose_null v = False"

text \<open>\<open>Array.prototype.isPrototypeOf(v)\<close> and \<open>Array.isArray(v)\<close>.\<close>

fun isArray :: "jsval \<Rightarrow> bool" where
  "isArray (JArr xs) = True"
| "isArray v = False"

subsection \<open>Property access\<close>

definition digit_char :: "nat \<Rightarrow> char" where
  "digit_char n = ''0123456789'' ! (n mod 10)"

fun string_of_nat :: "nat \<Rightarrow> string" where
  "string_of_nat n =
     (if n < 10 then [digit_char n] else string_of_nat (n div 10) @ [digit_char (n mod 10)])"

text \<open>The own properties named by array indices: \<open>("0", x0), ("1", x1), ...\<close>\<close>

definition indexed :: "jsval list \<Rightarrow> (string \<times> jsval) list" where
  "indexed xs = map (\<lambda>i. (string_of_nat i, xs ! i)) [0..<length xs]"

text \<open>
  \<open>v[key]\<close> for a data property: a \<open>TypeError\<close> on \<open>null\<close> and \<open>undefined\<close>,
  the own property when there is one, \<open>undefined\<close> otherwise.
\<close>

fun get_prop :: "jsval \<Rightarrow> string \<Rightarrow> js_exn + jsval" where
  "get_prop JUndefined key = Inl TypeError"
| "get_prop JNull key = Inl TypeError"
| "get_prop (JObj fs) key = (case map_of fs key of Some v \<Rightarrow> Inr v | None \<Rightarrow> Inr JUndefined)"
| "get_prop (JArr xs) key =
     (if key = ''length'' then Inr (JNum (int (length xs)))
      else case map_of (indexed xs) key of Some v \<Rightarrow> Inr v | None \<Rightarrow> Inr JUndefined)"
| "get_prop (JStr s) key =
     (if key = ''length'' then Inr (JNum (int (length s)))
      else case map_of (indexed (map (\<lambda>c. JStr [c]) s)) key of
             Some v \<Rightarrow> Inr v | None \<Rightarrow> Inr JUndefined)"
| "get_prop v key = Inr JUndefined"

text \<open>The own enumerable properties an object spread \<open>...v\<close> copies.\<close>

fun own_props :: "jsval \<Rightarrow> (string \<times> jsval) list" where
  "own_props (JObj fs) = fs"
| "own_props (JArr xs) = indexed xs"
| "own_props (JStr s) = indexed (map (\<lambda>c. JStr [c]) s)"
| "own_props v = []"

text \<open>
  The own properties of an object are ordered: those named by an array index first,
  by ascending index, then the others in the order of their creation. An array index
  is the canonical decimal form of a number below \<open>2^32 - 1\<close>.
\<close>

definition array_index :: "string \<Rightarrow> nat option" where
  "array_index s =
     (if s = [] \<or> \<not> list_all (\<lambda>c. c \<in> set ''0123456789'') s \<or> (hd s = CHR ''0'' \<and> tl s \<noteq> [])
      then None
      else let n = foldl (\<lambda>acc c. 10 * acc + (of_char c - 48)) 0 s in
        if n < 4294967295 then Some n else None)"

fun replace_prop :: "string \<Rightarrow> jsval \<Rightarrow> (string \<times> jsval) list \<Rightarrow> (string \<times> jsval) list" where
  "replace_prop k v [] = []"
| "replace_prop k v ((k', v') # fs) =
     (if k = k' then (k, v) # fs else (k', v') # replace_prop k v fs)"

fun insert_index :: "nat \<Rightarrow> string \<Rightarrow> jsval \<Rightarrow> (string \<times> jsval) list \<Rightarrow> (string \<times> jsval) list" where
  "insert_index n k v [] = [(k, v)]"
| "insert_index n k v ((k', v') # fs) =
     (case array_index k' of
        Some m \<Rightarrow> if m < n then (k', v') # insert_index n k v fs else (k, v) # (k', v') # fs
      | None \<Rightarrow> (k, v) # (k', v') # fs)"

text \<open>
  Defining a property on an object: an existing property keeps its place and takes the
  new value, a new property takes its place in the order.
\<close>

definition assign :: "string \<Rightarrow> jsval \<Rightarrow> (string \<times> jsval) list \<Rightarrow> (string \<times> jsval) list" where
  "assign k v fs =
     (if k \<in> fst ` set fs then replace_prop k v fs
      else case array_index k of
        Some n \<Rightarrow> insert_index n k v fs
      | None \<Rightarrow> fs @ [(k, v)])"

text \<open>The object literal \<open>{ ...a, ...b }\<close>.\<close>

definition spread2 :: "jsval \<Rightarrow> jsval \<Rightarrow> jsval" where
  "spread2 a b = JObj (fold (\<lambda>(k, v). assign k v) (own_props a @ own_props b) [])"

subsection \<open>JSON\<close>

text \<open>
  \<open>JSON.stringify\<close> gives no text for \<open>undefined\<close>, writes \<open>null\<close> for an
  \<open>undefined\<close> array element and leaves out a property whose value is \<open>undefined\<close>.
  \<open>to_json v\<close> is the value the text of \<open>v\<close> stands for.
\<close>

fun to_json :: "jsval \<Rightarrow> jsval option" where
  "to_json JUndefined = None"
| "to_json (JArr xs) =
     Some (JArr (map (\<lambda>x. case to_json x of None \<Rightarrow> JNull | Some y \<Rightarrow> y) xs))"
| "to_json (JObj fs) =
     Some (JObj (concat (map (\<lambda>kv. case to_json (snd kv) of None \<Rightarrow> [] | Some y \<Rightarrow> [(fst kv, y)]) fs)))"
| "to_json v = Some v"

text \<open>A JSON value holds no \<open>undefined\<close>.\<close>

fun is_json :: "jsval \<Rightarrow> bool" where
  "is_json JUndefined = False"
| "is_json (JArr xs) = list_all is_json xs"
| "is_json (JObj fs) = list_all (\<lambda>kv. is_json (snd kv)) fs"
| "is_json v = True"

text \<open>
  A text held by the storage medium. The utilities read a text only through its
  emptiness and through \<open>JSON.parse\<close>, so a text is modelled by what these two see:
  a JSON text by the value it stands for, the empty text, and any other text, which is
  not valid JSON (the text \<open>undefined\<close> is one).
\<close>

datatype stored_text = Json_text jsval | Empty_text | Malformed_text

definition JSON_stringify :: "jsval \<Rightarrow> stored_text option" where
  "JSON_stringify v = map_option Json_text (to_json v)"

text \<open>A value used where a string is expected; \<open>undefined\<close> becomes the text \<open>undefined\<close>.\<close>

fun to_text :: "stored_text option \<Rightarrow> stored_text" where
  "to_text None = Malformed_text"
| "to_text (Some t) = t"

text \<open>
  \<open>JSON.parse\<close> gives the value a JSON text stands for and throws on any other text.
  (\<open>Json_text v\<close> is a JSON text when \<open>v\<close> is a JSON value.)
\<close>

fun JSON_parse :: "stored_text \<Rightarrow> js_exn + jsval" where
  "JSON_parse (Json_text v) = (if is_json v then Inr v else Inl SyntaxError)"
| "JSON_parse Empty_text = Inl SyntaxError"
| "JSON_parse Malformed_text = Inl SyntaxError"

section \<open>The array helpers\<close>

text \<open>
  A callback that reads a property may throw; \<open>filter\<close>, \<open>map\<close> and \<open>find\<close> call it
  on the elements in order and let the first exception through.
\<close>

fun filter_exn :: "('a \<Rightarrow> js_exn + bool) \<Rightarrow> 'a list \<Rightarrow> js_exn + 'a list" where
  "filter_exn p [] = Inr []"
| "filter_exn p (x # xs) =
     (case p x of
        Inl ex \<Rightarrow> Inl ex
      | Inr b \<Rightarrow>
          (case filter_exn p xs of
             Inl ex \<Rightarrow> Inl ex
           | Inr ys \<Rightarrow> Inr (if b then x # ys else ys)))"

fun map_exn :: "('a \<Rightarrow> js_exn + 'b) \<Rightarrow> 'a list \<Rightarrow> js_exn + 'b list" where
  "map_exn f [] = Inr []"
| "map_exn f (x # xs) =
     (case f x of
        Inl ex \<Rightarrow> Inl ex
      | Inr y \<Rightarrow> (case map_exn f xs of Inl ex \<Rightarrow> Inl ex | Inr ys \<Rightarrow> Inr (y # ys)))"

text \<open>\<open>find\<close> gives \<open>undefined\<close> when no element passes.\<close>

fun find_exn :: "(jsval \<Rightarrow> js_exn + bool) \<Rightarrow> jsval list \<Rightarrow> js_exn + jsval" where
  "find_exn p [] = Inr JUndefined"
| "find_exn p (x # xs) =
     (case p x of Inl ex \<Rightarrow> Inl ex | Inr b \<Rightarrow> if b then Inr x else find_exn p xs)"

fun elements :: "jsval \<Rightarrow> jsval list" where
  "elements (JArr xs) = xs"
| "elements v = []"

text \<open>\<open>a.id === id\<close>\<close>

definition id_is :: "jsval \<Rightarrow> jsval \<Rightarrow> js_exn + bool" where
  "id_is v a = (case get_prop a ''id'' of Inl ex \<Rightarrow> Inl ex | Inr i \<Rightarrow> Inr (strict_eq i v))"

text \<open>\<open>a.id !== id\<close>\<close>

definition id_is_not :: "jsval \<Rightarrow> jsval \<Rightarrow> js_exn + bool" where
  "id_is_not v a = (case get_prop a ''id'' of Inl ex \<Rightarrow> Inl ex | Inr i \<Rightarrow> Inr (\<not> strict_eq i v))"

definition addArray :: "jsval \<Rightarrow> jsval \<Rightarrow> jsval" where
  "addArray arr item =
     (if \<not> truthy arr \<or> \<not> isArray arr \<or> \<not> truthy item then JNull
      else JArr (elements arr @ [item]))"

definition removeArray :: "jsval \<Rightarrow> jsval \<Rightarrow> js_exn + jsval" where
  "removeArray arr ident =
     (if \<not> truthy arr \<or> \<not> isArray arr \<or> \<not> truthy ident then Inr JNull
      else case filter_exn (id_is_not ident) (elements arr) of
        Inl ex \<Rightarrow> Inl ex
      | Inr ys \<Rightarrow> Inr (JArr ys))"

text \<open>\<open>a.id === item.id ? { ...a, ...item } : a\<close>\<close>

definition update_one :: "jsval \<Rightarrow> jsval \<Rightarrow> js_exn + jsval" where
  "update_one item a =
     (case get_prop a ''id'' of
        Inl ex \<Rightarrow> Inl ex
      | Inr i \<Rightarrow>
          (case get_prop item ''id'' of
             Inl ex \<Rightarrow> Inl ex
           | Inr j \<Rightarrow> Inr (if strict_eq i j then spread2 a item else a)))"

definition updateArray :: "jsval \<Rightarrow> jsval \<Rightarrow> js_exn + jsval" where
  "updateArray arr item =
     (if \<not> truthy arr \<or> \<not> isArray arr \<or> \<not> truthy item then Inr JNull
      else case map_exn (update_one item) (elements arr) of
        Inl ex \<Rightarrow> Inl ex
      | Inr ys \<Rightarrow> Inr (JArr ys))"

definition findById :: "jsval \<Rightarrow> jsval \<Rightarrow> js_exn + jsval" where
  "findById arr ident =
     (if \<not> isArray arr \<or> \<not> truthy arr \<or> \<not> truthy ident then Inr JNull
      else case find_exn (id_is ident) (elements arr) of
        Inl ex \<Rightarrow> Inl ex
      | Inr item \<Rightarrow> if \<not> truthy item then Inr JNull else Inr item)"

subsection \<open>Removing duplicates\<close>

text \<open>
  \<open>new Set(xs)\<close> read back with \<open>Array.from\<close>: a set keeps its members in the order
  they were first added.
\<close>

definition js_Set :: "'a list \<Rightarrow> 'a list" where
  "js_Set xs = fold (\<lambda>x acc. if x \<in> set acc then acc else acc @ [x]) xs []"

definition removeDuplicates :: "jsval \<Rightarrow> js_exn + jsval" where
  "removeDuplicates arr =
     (if \<not> truthy arr \<or> \<not> isArray arr then Inr JNull
      else case map_exn (\<lambda>item. JSON_parse (to_text item))
                  (js_Set (map JSON_stringify (elements arr))) of
        Inl ex \<Rightarrow> Inl ex
      | Inr ys \<Rightarrow> Inr (JArr ys))"

subsection \<open>Sorting\<close>

text \<open>
  The two string operations of the comparators depend on the locale of the engine and
  are parameters of the model.
\<close>

record locale_ops =
  toLocaleLowerCase :: "string \<Rightarrow> string"
  localeCompare :: "string \<Rightarrow> string \<Rightarrow> int"

text \<open>
  \<open>Array.prototype.sort\<close> with a comparator. The \<open>undefined\<close> elements go last and
  are never compared. ECMAScript fixes the order of the other elements only when the
  comparator is consistent; the comparators of this file are not when the field values
  mix numbers and strings (\<open>1\<close> and \<open>2\<close> both compare equal to \<open>"s"\<close>, and not to
  each other), and the order is then the engine's own. So the model fixes no
  algorithm: \<open>js_sort cmp xs out\<close> says that the call may end with \<open>out\<close>.

  A returned array holds the same elements, and each element stands next to its
  neighbour in an order that a call of the comparator on the two gives (\<open>in_order\<close>).
  This is what the sorts of the engines have in common, whatever the comparator: a
  binary insertion places an element between the two elements that its search compared
  it with last, and a merge, galloping or not, takes an element over from one run after
  comparing it with the head of the other. An exception is one that the comparator
  throws on two elements of the array, and needs two elements to compare.
\<close>

definition in_order :: "('a \<Rightarrow> 'a \<Rightarrow> js_exn + int) \<Rightarrow> 'a \<Rightarrow> 'a \<Rightarrow> bool" where
  "in_order cmp a b \<longleftrightarrow>
     (case cmp a b of Inl ex \<Rightarrow> False | Inr c \<Rightarrow> c \<le> 0) \<or>
     (case cmp b a of Inl ex \<Rightarrow> False | Inr c \<Rightarrow> 0 \<le> c)"

fun locally_ordered :: "('a \<Rightarrow> 'a \<Rightarrow> js_exn + int) \<Rightarrow> 'a list \<Rightarrow> bool" where
  "locally_ordered cmp (x # y # ys) = (in_order cmp x y \<and> locally_ordered cmp (y # ys))"
| "locally_ordered cmp ys = True"

definition js_sort ::
  "(jsval \<Rightarrow> jsval \<Rightarrow> js_exn + int) \<Rightarrow> jsval list \<Rightarrow> js_exn + jsval list \<Rightarrow> bool" where
  "js_sort cmp xs out =
     (let ds = filter (\<lambda>x. x \<noteq> JUndefined) xs; us = filter (\<lambda>x. x = JUndefined) xs in
      case out of
        Inl ex \<Rightarrow> 2 \<le> length ds \<and> list_ex (\<lambda>a. list_ex (\<lambda>b. cmp a b = Inl ex) ds) ds
      | Inr ys \<Rightarrow>
          mset (take (length ds) ys) = mset ds \<and> drop (length ds) ys = us \<and>
          locally_ordered cmp (take (length ds) ys))"

text \<open>
  One sort that the model admits: the stable insertion sort, which stops at the first
  exception of the comparator.
\<close>

fun insert_by :: "('a \<Rightarrow> 'a \<Rightarrow> js_exn + int) \<Rightarrow> 'a \<Rightarrow> 'a list \<Rightarrow> js_exn + 'a list" where
  "insert_by cmp x [] = Inr [x]"
| "insert_by cmp x (y # ys) =
     (case cmp x y of
        Inl ex \<Rightarrow> Inl ex
      | Inr c \<Rightarrow>
          if c \<le> 0 then Inr (x # y # ys)
          else (case insert_by cmp x ys of Inl ex \<Rightarrow> Inl ex | Inr zs \<Rightarrow> Inr (y # zs)))"

fun sort_by :: "('a \<Rightarrow> 'a \<Rightarrow> js_exn + int) \<Rightarrow> 'a list \<Rightarrow> js_exn + 'a list" where
  "sort_by cmp [] = Inr []"
| "sort_by cmp (x # xs) =
     (case sort_by cmp xs of Inl ex \<Rightarrow> Inl ex | Inr ys \<Rightarrow> insert_by cmp x ys)"

definition insertion_sort ::
  "(jsval \<Rightarrow> jsval \<Rightarrow> js_exn + int) \<Rightarrow> jsval list \<Rightarrow> js_exn + jsval list" where
  "insertion_sort cmp xs =
     (case sort_by cmp (filter (\<lambda>x. x \<noteq> JUndefined) xs) of
        Inl ex \<Rightarrow> Inl ex
      | Inr ys \<Rightarrow> Inr (ys @ filter (\<lambda>x. x = JUndefined) xs))"

text \<open>The comparator of \<open>_ascendingOrder\<close>, on the two field values.\<close>

fun ascending :: "locale_ops \<Rightarrow> jsval \<Rightarrow> jsval \<Rightarrow> int" where
  "ascending L av bv =
     (if loose_null av \<and> loose_null bv then 0
      else if loose_null av then 1
      else if loose_null bv then - 1
      else case (av, bv) of
        (JNum x, JNum y) \<Rightarrow> x - y
      | (JStr s, JStr t) \<Rightarrow> localeCompare L (toLocaleLowerCase L s) (toLocaleLowerCase L t)
      | _ \<Rightarrow> 0)"

text \<open>The comparator of \<open>_descendingOrder\<close>, on the two field values.\<close>

fun descending :: "locale_ops \<Rightarrow> jsval \<Rightarrow> jsval \<Rightarrow> int" where
  "descending L av bv =
     (if loose_null av \<and> loose_null bv then 0
      else if loose_null av then 1
      else if loose_null bv then - 1
      else case (av, bv) of
        (JNum x, JNum y) \<Rightarrow> y - x
      | (JStr s, JStr t) \<Rightarrow> localeCompare L (toLocaleLowerCase L t) (toLocaleLowerCase L s)
      | _ \<Rightarrow> 0)"

text \<open>A comparator reads \<open>a[key]\<close> and \<open>b[key]\<close> before it returns.\<close>

definition on_field ::
  "(jsval \<Rightarrow> jsval \<Rightarrow> int) \<Rightarrow> string \<Rightarrow> jsval \<Rightarrow> jsval \<Rightarrow> js_exn + int" where
  "on_field f key a b =
     (case get_prop a key of
        Inl ex \<Rightarrow> Inl ex
      | Inr av \<Rightarrow> (case get_prop b key of Inl ex \<Rightarrow> Inl ex | Inr bv \<Rightarrow> Inr (f av bv)))"

text \<open>
  \<open>_ascendingOrder\<close> and \<open>_descendingOrder\<close> return what \<open>arr.sort\<close> returns, the
  array itself; \<open>ascendingOrder L arr key out\<close> says that the call may end with \<open>out\<close>.
  \<open>_ascendingOrder\<close> has no guard: \<open>arr.sort\<close> on a value that is no array throws.
\<close>

definition ascendingOrder :: "locale_ops \<Rightarrow> jsval \<Rightarrow> string \<Rightarrow> js_exn + jsval \<Rightarrow> bool" where
  "ascendingOrder L arr key out =
     (if \<not> isArray arr then out = Inl TypeError
      else case out of
        Inl ex \<Rightarrow> js_sort (on_field (ascending L) key) (elements arr) (Inl ex)
      | Inr res \<Rightarrow>
          isArray res \<and> js_sort (on_field (ascending L) key) (elements arr) (Inr (elements res)))"

definition descendingOrder :: "locale_ops \<Rightarrow> jsval \<Rightarrow> string \<Rightarrow> js_exn + jsval \<Rightarrow> bool" where
  "descendingOrder L arr key out =
     (if \<not> truthy arr \<or> \<not> isArray arr then out = Inr JNull
      else case out of
        Inl ex \<Rightarrow> js_sort (on_field (descending L) key) (elements arr) (Inl ex)
      | Inr res \<Rightarrow>
          isArray res \<and> js_sort (on_field (descending L) key) (elements arr) (Inr (elements res)))"

section \<open>The storage wrapper\<close>

datatype ErrorLS =
    WINDOW_IS_UNDEFINED
  | NO_KEY
  | NO_DEFAULT_VALUE
  | ALREADY_EXISTS
  | NOT_ASSOCIATED
  | UNABLE_TO_ADD
  | UNABLE_TO_UPDATE
  | UNABLE_TO_FIND
  | NOT_ARRAY_TYPE
  | ARRAY_NULL

text \<open>
  The envelope every operation returns. An optional member that the object literal
  leaves out is \<open>None\<close>; \<open>result = Some JNull\<close> is a result that is present and
  \<open>null\<close>.
\<close>

record ReturnLS =
  state :: bool
  error :: "ErrorLS option"
  variables :: "(string \<times> jsval) list option"
  result :: "jsval option"

text \<open>
  The environment: whether the global \<open>window\<close> is defined, and the entries of
  \<open>localStorage\<close>. An operation that writes returns the environment it leaves.
  \<open>localStorage.setItem\<close> turns its argument into a string and always stores it: a
  storage that is full is not modelled.
\<close>

record env =
  window_defined :: bool
  localStorage :: "string \<rightharpoonup> stored_text"

definition ls_setItem :: "string \<Rightarrow> stored_text option \<Rightarrow> env \<Rightarrow> env" where
  "ls_setItem key t w = w\<lparr>localStorage := (localStorage w)(key \<mapsto> to_text t)\<rparr>"

definition ls_clear :: "env \<Rightarrow> env" where
  "ls_clear w = w\<lparr>localStorage := Map.empty\<rparr>"

definition failure :: "ErrorLS option \<Rightarrow> (string \<times> jsval) list \<Rightarrow> ReturnLS" where
  "failure e vars = \<lparr>state = False, error = e, variables = Some vars, result = None\<rparr>"

definition success :: "(string \<times> jsval) list \<Rightarrow> ReturnLS" where
  "success vars = \<lparr>state = True, error = None, variables = Some vars, result = None\<rparr>"

definition getItem :: "env \<Rightarrow> string \<Rightarrow> js_exn + ReturnLS" where
  "getItem w key =
     (if \<not> window_defined w then Inr (failure (Some WINDOW_IS_UNDEFINED) [(''key'', JStr key)])
      else if key = [] then Inr (failure (Some NO_KEY) [(''key'', JStr key)])
      else case localStorage w key of
        None \<Rightarrow> Inr (failure (Some NOT_ASSOCIATED) [(''key'', JStr key)])
      | Some Empty_text \<Rightarrow> Inr (failure (Some NOT_ASSOCIATED) [(''key'', JStr key)])
      | Some item \<Rightarrow>
          (case JSON_parse item of
             Inl ex \<Rightarrow> Inl ex
           | Inr res \<Rightarrow> Inr ((success [(''key'', JStr key)])\<lparr>result := Some res\<rparr>)))"

text \<open>A member read from an envelope: \<open>undefined\<close> when the envelope has none.\<close>

fun read_member :: "jsval option \<Rightarrow> jsval" where
  "read_member None = JUndefined"
| "read_member (Some v) = v"

definition initializeStorage :: "env \<Rightarrow> string \<Rightarrow> jsval \<Rightarrow> (js_exn + ReturnLS) \<times> env" where
  "initializeStorage w key defaultValue =
     (let vars = [(''key'', JStr key), (''defaultValue'', defaultValue)] in
      if \<not> window_defined w then (Inr (failure (Some WINDOW_IS_UNDEFINED) vars), w)
      else if defaultValue = JUndefined then (Inr (failure (Some NO_DEFAULT_VALUE) vars), w)
      else case getItem w key of
        Inl ex \<Rightarrow> (Inl ex, w)
      | Inr r \<Rightarrow>
          if error r \<noteq> None \<and> error r \<noteq> Some NOT_ASSOCIATED then (Inr (failure (error r) vars), w)
          else if truthy (read_member (result r)) \<or> read_member (result r) = JNull
                  \<or> read_member (result r) = JBool False
          then (Inr (failure (Some ALREADY_EXISTS) vars), w)
          else (Inr (success vars), ls_setItem key (JSON_stringify defaultValue) w))"

definition setItem :: "env \<Rightarrow> string \<Rightarrow> jsval \<Rightarrow> (js_exn + ReturnLS) \<times> env" where
  "setItem w key item =
     (let vars = [(''key'', JStr key), (''item'', item)] in
      if \<not> window_defined w then (Inr (failure (Some WINDOW_IS_UNDEFINED) vars), w)
      else if key = [] then (Inr (failure (Some NO_KEY) vars), w)
      else (Inr (success vars), ls_setItem key (JSON_stringify item) w))"

text \<open>What \<open>_getArray\<close> returns: the members \<open>error\<close> and \<open>result\<close> of an envelope.\<close>

record array_pick =
  pick_error :: "ErrorLS option"
  pick_result :: jsval

definition getArray :: "env \<Rightarrow> string \<Rightarrow> js_exn + array_pick" where
  "getArray w key =
     (case getItem w key of
        Inl ex \<Rightarrow> Inl ex
      | Inr oldArray \<Rightarrow>
          if error oldArray \<noteq> None then Inr \<lparr>pick_error = error oldArray, pick_result = JNull\<rparr>
          else if \<not> isArray (read_member (result oldArray))
          then Inr \<lparr>pick_error = Some NOT_ARRAY_TYPE, pick_result = JNull\<rparr>
          else if \<not> truthy (read_member (result oldArray))
          then Inr \<lparr>pick_error = Some ARRAY_NULL, pick_result = JNull\<rparr>
          else Inr \<lparr>pick_error = None, pick_result = read_member (result oldArray)\<rparr>)"

definition pushItem :: "env \<Rightarrow> string \<Rightarrow> jsval \<Rightarrow> (js_exn + ReturnLS) \<times> env" where
  "pushItem w key item =
     (let vars = [(''key'', JStr key), (''item'', item)] in
      if \<not> window_defined w then (Inr (failure (Some WINDOW_IS_UNDEFINED) vars), w)
      else case getArray w key of
        Inl ex \<Rightarrow> (Inl ex, w)
      | Inr oldArray \<Rightarrow>
          if pick_error oldArray \<noteq> None \<or> pick_result oldArray = JNull
          then (Inr (failure (pick_error oldArray) vars), w)
          else let newArray = addArray (pick_result oldArray) item in
            if newArray = JNull then (Inr (failure (Some UNABLE_TO_ADD) vars), w)
            else (Inr (success vars), ls_setItem key (JSON_stringify newArray) w))"

definition removeItem :: "env \<Rightarrow> string \<Rightarrow> jsval \<Rightarrow> (js_exn + ReturnLS) \<times> env" where
  "removeItem w key ident =
     (let vars = [(''key'', JStr key), (''id'', ident)] in
      if \<not> window_defined w then (Inr (failure (Some WINDOW_IS_UNDEFINED) vars), w)
      else case getArray w key of
        Inl ex \<Rightarrow> (Inl ex, w)
      | Inr oldArray \<Rightarrow>
          if pick_error oldArray \<noteq> None \<or> pick_result oldArray = JNull
          then (Inr (failure (pick_error oldArray) vars), w)
          else (case removeArray (pick_result oldArray) ident of
                  Inl ex \<Rightarrow> (Inl ex, w)
                | Inr newArray \<Rightarrow>
                    (Inr (success vars), ls_setItem key (JSON_stringify newArray) w)))"

definition updateItem :: "env \<Rightarrow> string \<Rightarrow> jsval \<Rightarrow> (js_exn + ReturnLS) \<times> env" where
  "updateItem w key updatedItem =
     (let vars = [(''key'', JStr key), (''updatedItem'', updatedItem)] in
      if \<not> window_defined w then (Inr (failure (Some WINDOW_IS_UNDEFINED) vars), w)
      else case getArray w key of
        Inl ex \<Rightarrow> (Inl ex, w)
      | Inr oldArray \<Rightarrow>
          if pick_error oldArray \<noteq> None \<or> pick_result oldArray = JNull
          then (Inr (failure (pick_error oldArray) vars), w)
          else (case updateArray (pick_result oldArray) updatedItem of
                  Inl ex \<Rightarrow> (Inl ex, w)
                | Inr newArray \<Rightarrow>
                    if newArray = JNull then (Inr (failure (Some UNABLE_TO_UPDATE) vars), w)
                    else (Inr (success vars), ls_setItem key (JSON_stringify newArray) w)))"

definition findItemById :: "env \<Rightarrow> string \<Rightarrow> jsval \<Rightarrow> js_exn + ReturnLS" where
  "findItemById w key ident =
     (let vars = [(''key'', JStr key), (''id'', ident)] in
      if \<not> window_defined w then Inr (failure (Some WINDOW_IS_UNDEFINED) vars)
      else case getArray w key of
        Inl ex \<Rightarrow> Inl ex
      | Inr oldArray \<Rightarrow>
          if pick_error oldArray \<noteq> None \<or> pick_result oldArray = JNull
          then Inr (failure (pick_error oldArray) vars)
          else (case findById (pick_result oldArray) ident of
                  Inl ex \<Rightarrow> Inl ex
                | Inr res \<Rightarrow>
                    if \<not> truthy res then Inr (failure (Some UNABLE_TO_FIND) vars)
                    else Inr ((success vars)\<lparr>result := Some res\<rparr>)))"

definition clear :: "env \<Rightarrow> string \<Rightarrow> (js_exn + ReturnLS) \<times> env" where
  "clear w key =
     (let vars = [(''key'', JStr key)] in
      if \<not> window_defined w then (Inr (failure (Some WINDOW_IS_UNDEFINED) vars), w)
      else case getItem w key of
        Inl ex \<Rightarrow> (Inl ex, w)
      | Inr oldItems \<Rightarrow>
          if error oldItems \<noteq> None then (Inr (failure (error oldItems) vars), w)
          else (Inr (success vars), ls_setItem key (JSON_stringify JNull) w))"

definition clearAll :: "env \<Rightarrow> (js_exn + ReturnLS) \<times> env" where
  "clearAll w =
     (if \<not> window_defined w
      then (Inr \<lparr>state = False, error = Some WINDOW_IS_UNDEFINED, variables = None, result = None\<rparr>, w)
      else (Inr \<lparr>state = True, error = None, variables = None, result = None\<rparr>, ls_clear w))"

section \<open>Notions used by the properties\<close>

text \<open>A browser whose storage holds the given entries.\<close>

definition browser :: "(string \<times> stored_text) list \<Rightarrow> env" where
  "browser entries = \<lparr>window_defined = True, localStorage = map_of entries\<rparr>"

text \<open>Storages of the examples, written through the wrapper.\<close>

abbreviation one_user :: env where
  "one_user \<equiv> snd (setItem (browser []) ''users'' (JArr [JObj [(''id'', JNum 1)]]))"

abbreviation null_entry :: env where
  "null_entry \<equiv> snd (setItem (browser []) ''k'' JNull)"

abbreviation null_in_array :: env where
  "null_in_array \<equiv> snd (setItem (browser []) ''k'' (JArr [JNull]))"

abbreviation number_entry :: env where
  "number_entry \<equiv> snd (setItem (browser []) ''n'' (JNum 5))"

text \<open>
  A key holds a value when the wrapper's own lookup of the key returns it: the medium
  is available, the key is not empty and the text stored under it is the JSON text of
  the value.
\<close>

definition holds :: "env \<Rightarrow> string \<Rightarrow> jsval \<Rightarrow> bool" where
  "holds w key v = (case getItem w key of Inl ex \<Rightarrow> False | Inr r \<Rightarrow> state r \<and> result r = Some v)"

text \<open>The invariant of the envelope.\<close>

definition envelope_ok :: "ReturnLS \<Rightarrow> bool" where
  "envelope_ok r \<longleftrightarrow> (state r \<longleftrightarrow> error r = None) \<and> (error r \<noteq> None \<longrightarrow> result r = None)"

text \<open>
  An entry that \<open>JSON.parse\<close> is not called on, or accepts: no entry, the empty text,
  or a JSON text.
\<close>

definition parses_entry :: "env \<Rightarrow> string \<Rightarrow> bool" where
  "parses_entry w key =
     (case localStorage w key of
        None \<Rightarrow> True
      | Some Empty_text \<Rightarrow> True
      | Some Malformed_text \<Rightarrow> False
      | Some (Json_text v) \<Rightarrow> is_json v)"

text \<open>An entry whose value is an array with a \<open>null\<close> element.\<close>

definition null_element :: "env \<Rightarrow> string \<Rightarrow> bool" where
  "null_element w key =
     (case localStorage w key of
        Some (Json_text v) \<Rightarrow> list_ex (\<lambda>a. a = JNull) (elements v)
      | _ \<Rightarrow> False)"

text \<open>
  An operation returns an envelope that satisfies the invariant; it may throw a
  \<open>SyntaxError\<close> only when \<open>not_json\<close> holds, and a \<open>TypeError\<close> only when
  \<open>null_read\<close> holds.
\<close>

definition returns_envelope_unless :: "bool \<Rightarrow> bool \<Rightarrow> js_exn + ReturnLS \<Rightarrow> bool" where
  "returns_envelope_unless not_json null_read out =
     (case out of
        Inl SyntaxError \<Rightarrow> not_json
      | Inl TypeError \<Rightarrow> null_read
      | Inr r \<Rightarrow> envelope_ok r)"

text \<open>
  A record is an object; the names of its properties are distinct, as they are in every
  object.
\<close>

fun is_record :: "jsval \<Rightarrow> bool" where
  "is_record (JObj fs) = distinct (map fst fs)"
| "is_record v = False"

text \<open>The value of \<open>a.k\<close> where reading it does not throw.\<close>

definition field_of :: "jsval \<Rightarrow> string \<Rightarrow> jsval" where
  "field_of a k = (case get_prop a k of Inl ex \<Rightarrow> JUndefined | Inr v \<Rightarrow> v)"

text \<open>The element as it is read back from its JSON text.\<close>

definition json_form :: "jsval \<Rightarrow> jsval" where
  "json_form x = (case to_json x of None \<Rightarrow> JNull | Some y \<Rightarrow> y)"

text \<open>
  The first occurrences of a list, in the order of the list: the elements at the
  positions before which the same value does not occur.
\<close>

definition first_occurrences :: "'a list \<Rightarrow> 'a list" where
  "first_occurrences ys =
     map (\<lambda>i. ys ! i) (filter (\<lambda>i. ys ! i \<notin> set (take i ys)) [0..<length ys])"

text \<open>The members a set gains from a list, given the ones it has.\<close>

fun fresh :: "'a set \<Rightarrow> 'a list \<Rightarrow> 'a list" where
  "fresh seen [] = []"
| "fresh seen (x # xs) = (if x \<in> seen then fresh seen xs else x # fresh (insert x seen) xs)"

text \<open>
  The field of an element is \<open>null\<close> or \<open>undefined\<close>; the field of an element has
  another value.
\<close>

definition field_nullish :: "string \<Rightarrow> jsval \<Rightarrow> bool" where
  "field_nullish key a = (case get_prop a key of Inl ex \<Rightarrow> False | Inr v \<Rightarrow> loose_null v)"

definition field_present :: "string \<Rightarrow> jsval \<Rightarrow> bool" where
  "field_present key a = (case get_prop a key of Inl ex \<Rightarrow> False | Inr v \<Rightarrow> \<not> loose_null v)"

text \<open>No element with a nullish field stands before an element whose field has a value.\<close>

fun nulls_last :: "string \<Rightarrow> jsval list \<Rightarrow> bool" where
  "nulls_last key [] = True"
| "nulls_last key (y # ys) =
     ((field_nullish key y \<longrightarrow> list_all (\<lambda>z. \<not> field_present key z) ys) \<and> nulls_last key ys)"

text \<open>
  The outcome of a sort of the array \<open>xs\<close> by \<open>key\<close> is an array of the same elements
  with the nullish fields last.
\<close>

definition sorted_nulls_last :: "string \<Rightarrow> jsval list \<Rightarrow> js_exn + jsval \<Rightarrow> bool" where
  "sorted_nulls_last key xs out =
     (case out of
        Inl ex \<Rightarrow> False
      | Inr res \<Rightarrow> isArray res \<and> mset (elements res) = mset xs \<and> nulls_last key (elements res))"

text \<open>A comparator on field values that puts the nullish ones after the others.\<close>

definition nulls_after :: "(jsval \<Rightarrow> jsval \<Rightarrow> int) \<Rightarrow> bool" where
  "nulls_after f \<longleftrightarrow>
     (\<forall>av bv. (loose_null av \<and> \<not> loose_null bv \<longrightarrow> 0 < f av bv) \<and>
              (\<not> loose_null av \<and> loose_null bv \<longrightarrow> f av bv < 0))"

text \<open>A sample locale: ASCII lower case, comparison by code units.\<close>

fun compare_code_units :: "string \<Rightarrow> string \<Rightarrow> int" where
  "compare_code_units [] [] = 0"
| "compare_code_units [] (d # ds) = - 1"
| "compare_code_units (c # cs) [] = 1"
| "compare_code_units (c # cs) (d # ds) =
     (if (of_char c :: nat) < of_char d then - 1
      else if (of_char d :: nat) < of_char c then 1
      else compare_code_units cs ds)"

definition ascii_lower :: "char \<Rightarrow> char" where
  "ascii_lower c =
     (if 65 \<le> (of_char c :: nat) \<and> (of_char c :: nat) \<le> 90 then char_of (of_char c + (32 :: nat)) else c)"

definition plain_locale :: locale_ops where
  "plain_locale = \<lparr>toLocaleLowerCase = map ascii_lower, localeCompare = compare_code_units\<rparr>"

section \<open>Properties of JSON values\<close>

lemma to_json_id: "is_json v \<Longrightarrow> to_json v = Some v"
proof (induction v rule: to_json.induct)
  case (2 xs)
  then have "map (\<lambda>x. case to_json x of None \<Rightarrow> JNull | Some y \<Rightarrow> y) xs = xs"
    by (simp add: list_all_iff map_idI)
  then show ?case by simp
next
  case (3 fs)
  then have "concat (map (\<lambda>kv. case to_json (snd kv) of None \<Rightarrow> [] | Some y \<Rightarrow> [(fst kv, y)]) fs) = fs"
    by (induction fs) auto
  then show ?case by simp
qed simp_all

lemma is_json_to_json: "to_json v = Some j \<Longrightarrow> is_json j"
proof (induction v arbitrary: j rule: to_json.induct)
  case (2 xs)
  then show ?case
    by (auto simp: list_all_iff split: option.splits)
next
  case (3 fs)
  then show ?case
    by (fastforce simp: list_all_iff split: option.splits)
qed auto

lemma JSON_stringify_json: "is_json v \<Longrightarrow> JSON_stringify v = Some (Json_text v)"
  by (simp add: JSON_stringify_def to_json_id)

lemma json_form_id: "is_json v \<Longrightarrow> json_form v = v"
  by (simp add: json_form_def to_json_id)

lemma JSON_stringify_defined:
  assumes "x \<noteq> JUndefined"
  shows "JSON_stringify x = Some (Json_text (json_form x))" and "is_json (json_form x)"
proof -
  from assms obtain j where j: "to_json x = Some j"
    by (cases x) auto
  then show "JSON_stringify x = Some (Json_text (json_form x))"
    by (simp add: JSON_stringify_def json_form_def)
  from j is_json_to_json show "is_json (json_form x)"
    by (simp add: json_form_def)
qed

lemma JSON_stringify_undefined: "JSON_stringify x = None \<longleftrightarrow> x = JUndefined"
  by (cases x) (auto simp: JSON_stringify_def)

lemma JSON_parse_throws: "JSON_parse t = Inl e \<Longrightarrow> e = SyntaxError"
  by (cases t) (auto split: if_splits)

lemma truthy_to_json:
  "to_json d = Some j \<Longrightarrow>
     truthy j = truthy d \<and> (j = JNull \<longleftrightarrow> d = JNull) \<and> (j = JBool False \<longleftrightarrow> d = JBool False)"
  by (cases d) auto

section \<open>Properties of the storage wrapper\<close>

subsection \<open>Lookups\<close>

lemma holds_iff:
  "holds w key v \<longleftrightarrow>
     window_defined w \<and> key \<noteq> [] \<and> localStorage w key = Some (Json_text v) \<and> is_json v"
  by (auto simp: holds_def getItem_def failure_def success_def
      split: option.splits stored_text.splits sum.splits if_splits)

lemma getItem_cases:
  "getItem w key = Inr r \<Longrightarrow>
     (\<exists>e. r = failure (Some e) [(''key'', JStr key)]) \<or>
     (\<exists>v. r = (success [(''key'', JStr key)])\<lparr>result := Some v\<rparr> \<and> is_json v \<and>
        localStorage w key = Some (Json_text v))"
  by (auto simp: getItem_def split: option.splits stored_text.splits sum.splits if_splits)

lemma getItem_throws: "getItem w key = Inl ex \<Longrightarrow> ex = SyntaxError \<and> \<not> parses_entry w key"
  by (auto simp: getItem_def parses_entry_def
      split: option.splits stored_text.splits sum.splits if_splits)

text \<open>
  \<open>_getArray\<close> either reports an error, with a \<open>null\<close> result, or gives the stored
  array with no error: a \<open>null\<close> result never comes without an error.
\<close>

lemma getArray_cases:
  assumes "getArray w key = Inr p"
  shows "(\<exists>e. pick_error p = Some e \<and> pick_result p = JNull) \<or>
     (\<exists>xs. pick_error p = None \<and> pick_result p = JArr xs \<and> list_all is_json xs \<and>
        localStorage w key = Some (Json_text (JArr xs)))"
proof -
  from assms obtain r where r: "getItem w key = Inr r"
    by (auto simp: getArray_def split: sum.splits)
  from getItem_cases [OF r] show ?thesis
  proof
    assume "\<exists>e. r = failure (Some e) [(''key'', JStr key)]"
    with assms r show ?thesis
      by (auto simp: getArray_def failure_def)
  next
    assume "\<exists>v. r = (success [(''key'', JStr key)])\<lparr>result := Some v\<rparr> \<and> is_json v \<and>
      localStorage w key = Some (Json_text v)"
    then obtain v where v: "r = (success [(''key'', JStr key)])\<lparr>result := Some v\<rparr>"
      "is_json v" "localStorage w key = Some (Json_text v)" by blast
    with assms r show ?thesis
      by (cases v) (auto simp: getArray_def success_def split: if_splits)
  qed
qed

lemma getArray_throws: "getArray w key = Inl ex \<Longrightarrow> ex = SyntaxError \<and> \<not> parses_entry w key"
  by (auto simp: getArray_def dest: getItem_throws split: sum.splits if_splits)

lemma getArray_holds:
  "holds w key (JArr xs) \<Longrightarrow> getArray w key = Inr \<lparr>pick_error = None, pick_result = JArr xs\<rparr>"
  by (simp add: holds_iff getArray_def getItem_def success_def)

subsection \<open>Where a callback can throw\<close>

lemma get_prop_throws: "get_prop a k = Inl ex \<Longrightarrow> a = JNull \<or> a = JUndefined"
  by (cases a) (auto split: option.splits if_splits)

lemma get_prop_TypeError: "get_prop a k = Inl ex \<Longrightarrow> ex = TypeError"
  by (cases a) (auto split: option.splits if_splits)

lemma filter_exn_throws:
  "filter_exn (id_is_not i) xs = Inl ex \<Longrightarrow>
     ex = TypeError \<and> (JNull \<in> set xs \<or> JUndefined \<in> set xs)"
  by (induction xs)
    (auto simp: id_is_not_def dest: get_prop_throws get_prop_TypeError split: sum.splits)

lemma map_exn_throws:
  "map_exn (update_one item) xs = Inl ex \<Longrightarrow> truthy item \<Longrightarrow>
     ex = TypeError \<and> (JNull \<in> set xs \<or> JUndefined \<in> set xs)"
  by (induction xs)
    (auto simp: update_one_def dest: get_prop_throws get_prop_TypeError split: sum.splits)

lemma find_exn_throws:
  "find_exn (id_is i) xs = Inl ex \<Longrightarrow>
     ex = TypeError \<and> (JNull \<in> set xs \<or> JUndefined \<in> set xs)"
  by (induction xs)
    (auto simp: id_is_def dest: get_prop_throws get_prop_TypeError split: sum.splits if_splits)

text \<open>
  On a stored array a callback throws only a \<open>TypeError\<close>, and only where an element
  of the array is \<open>null\<close>: a JSON text has no \<open>undefined\<close> in it.
\<close>

lemma stored_array_throws:
  assumes "localStorage w key = Some (Json_text (JArr xs))" and "list_all is_json xs"
  shows "filter_exn (id_is_not i) xs = Inl ex \<Longrightarrow> ex = TypeError \<and> null_element w key"
    and "map_exn (update_one item) xs = Inl ex \<Longrightarrow> truthy item \<Longrightarrow>
           ex = TypeError \<and> null_element w key"
    and "find_exn (id_is i) xs = Inl ex \<Longrightarrow> ex = TypeError \<and> null_element w key"
proof -
  from assms(2) have "JUndefined \<notin> set xs"
    by (auto simp: list_all_iff)
  then have null: "null_element w key" if "JNull \<in> set xs \<or> JUndefined \<in> set xs"
    using that assms(1) by (auto simp: null_element_def list_ex_iff)
  show "filter_exn (id_is_not i) xs = Inl ex \<Longrightarrow> ex = TypeError \<and> null_element w key"
    using filter_exn_throws null by blast
  show "map_exn (update_one item) xs = Inl ex \<Longrightarrow> truthy item \<Longrightarrow>
      ex = TypeError \<and> null_element w key"
    using map_exn_throws null by blast
  show "find_exn (id_is i) xs = Inl ex \<Longrightarrow> ex = TypeError \<and> null_element w key"
    using find_exn_throws null by blast
qed

subsection \<open>The envelope of each operation\<close>

lemma envelope_ok_failure: "envelope_ok (failure (Some e) vars)"
  by (simp add: envelope_ok_def failure_def)

lemma envelope_ok_success:
  "envelope_ok (success vars)" "envelope_ok ((success vars)\<lparr>result := x\<rparr>)"
  by (simp_all add: envelope_ok_def success_def)

lemma returns_envelope_unlessI:
  assumes "\<And>r. out = Inr r \<Longrightarrow> envelope_ok r"
    and "out = Inl SyntaxError \<Longrightarrow> not_json"
    and "out = Inl TypeError \<Longrightarrow> null_read"
  shows "returns_envelope_unless not_json null_read out"
  using assms by (auto simp: returns_envelope_unless_def split: sum.splits js_exn.splits)

lemma getItem_settles: "returns_envelope_unless (\<not> parses_entry w key) False (getItem w key)"
  by (rule returns_envelope_unlessI)
    (auto simp: getItem_def parses_entry_def envelope_ok_failure envelope_ok_success
      split: option.splits stored_text.splits sum.splits if_splits)

lemma initializeStorage_settles:
  "returns_envelope_unless (\<not> parses_entry w key) False (fst (initializeStorage w key d))"
  by (rule returns_envelope_unlessI)
    (auto simp: initializeStorage_def Let_def envelope_ok_failure envelope_ok_success
      dest: getItem_throws split: sum.splits if_splits)

lemma setItem_settles: "returns_envelope_unless False False (fst (setItem w key v))"
  by (simp add: returns_envelope_unless_def setItem_def Let_def
      envelope_ok_failure envelope_ok_success)

lemma pushItem_settles:
  "returns_envelope_unless (\<not> parses_entry w key) False (fst (pushItem w key item))"
  by (rule returns_envelope_unlessI)
    (auto simp: pushItem_def Let_def envelope_ok_failure envelope_ok_success
      dest: getArray_throws dest!: getArray_cases split: sum.splits if_splits)

lemma removeItem_settles:
  "returns_envelope_unless (\<not> parses_entry w key) (null_element w key)
     (fst (removeItem w key ident))"
  by (rule returns_envelope_unlessI)
    (auto simp: removeItem_def Let_def envelope_ok_failure envelope_ok_success removeArray_def
      dest: getArray_throws stored_array_throws dest!: getArray_cases
      split: sum.splits if_splits)

lemma updateItem_settles:
  "returns_envelope_unless (\<not> parses_entry w key) (null_element w key)
     (fst (updateItem w key item))"
  by (rule returns_envelope_unlessI)
    (auto simp: updateItem_def Let_def envelope_ok_failure envelope_ok_success updateArray_def
      dest: getArray_throws stored_array_throws dest!: getArray_cases
      split: sum.splits if_splits)

lemma findItemById_settles:
  "returns_envelope_unless (\<not> parses_entry w key) (null_element w key)
     (findItemById w key ident)"
  by (rule returns_envelope_unlessI)
    (auto simp: findItemById_def Let_def envelope_ok_failure envelope_ok_success findById_def
      dest: getArray_throws stored_array_throws dest!: getArray_cases
      split: sum.splits if_splits)

lemma clear_settles:
  "returns_envelope_unless (\<not> parses_entry w key) False (fst (clear w key))"
  by (rule returns_envelope_unlessI)
    (auto simp: clear_def Let_def envelope_ok_failure envelope_ok_success
      dest: getItem_throws split: sum.splits if_splits)

lemma clearAll_settles: "returns_envelope_unless False False (fst (clearAll w))"
  by (simp add: returns_envelope_unless_def clearAll_def envelope_ok_def)

text \<open>
  C2. Every envelope that a public operation of the storage wrapper returns has the
  success flag true exactly when no error code is present, and no result payload when
  an error code is present. \<open>set\<close> and \<open>clearAll\<close> always return an envelope. The
  other operations return one unless the text under the key is not JSON, where they
  throw the \<open>SyntaxError\<close> of \<open>JSON.parse\<close>, or, for \<open>removeById\<close>, \<open>updateById\<close>
  and \<open>findById\<close> only, the stored array has a \<open>null\<close> element, where they throw the
  \<open>TypeError\<close> of reading its \<open>id\<close>. No operation throws anything else, or
  anywhere else.
\<close>

theorem envelope_invariant:
  "returns_envelope_unless (\<not> parses_entry w key) False (fst (initializeStorage w key d)) \<and>
   returns_envelope_unless (\<not> parses_entry w key) False (getItem w key) \<and>
   returns_envelope_unless False False (fst (setItem w key item)) \<and>
   returns_envelope_unless (\<not> parses_entry w key) False (fst (pushItem w key item)) \<and>
   returns_envelope_unless (\<not> parses_entry w key) (null_element w key)
     (fst (removeItem w key ident)) \<and>
   returns_envelope_unless (\<not> parses_entry w key) (null_element w key)
     (fst (updateItem w key updatedItem)) \<and>
   returns_envelope_unless (\<not> parses_entry w key) (null_element w key)
     (findItemById w key ident) \<and>
   returns_envelope_unless (\<not> parses_entry w key) False (fst (clear w key)) \<and>
   returns_envelope_unless False False (fst (clearAll w))"
proof (intro conjI)
  show "returns_envelope_unless (\<not> parses_entry w key) False (fst (initializeStorage w key d))"
    by (rule initializeStorage_settles)
  show "returns_envelope_unless (\<not> parses_entry w key) False (getItem w key)"
    by (rule getItem_settles)
  show "returns_envelope_unless False False (fst (setItem w key item))"
    by (rule setItem_settles)
  show "returns_envelope_unless (\<not> parses_entry w key) False (fst (pushItem w key item))"
    by (rule pushItem_settles)
  show "returns_envelope_unless (\<not> parses_entry w key) (null_element w key)
      (fst (removeItem w key ident))"
    by (rule removeItem_settles)
  show "returns_envelope_unless (\<not> parses_entry w key) (null_element w key)
      (fst (updateItem w key updatedItem))"
    by (rule updateItem_settles)
  show "returns_envelope_unless (\<not> parses_entry w key) (null_element w key)
      (findItemById w key ident)"
    by (rule findItemById_settles)
  show "returns_envelope_unless (\<not> parses_entry w key) False (fst (clear w key))"
    by (rule clear_settles)
  show "returns_envelope_unless False False (fst (clearAll w))"
    by (rule clearAll_settles)
qed

theorem envelope_invariant_witness:
  "parses_entry one_user ''users'' \<and> \<not> null_element one_user ''users'' \<and>
   returns_envelope_unless False False (fst (initializeStorage one_user ''users'' (JArr []))) \<and>
   returns_envelope_unless False False (getItem one_user ''users'') \<and>
   returns_envelope_unless False False
     (fst (setItem one_user ''users'' (JObj [(''id'', JNum 2)]))) \<and>
   returns_envelope_unless False False
     (fst (pushItem one_user ''users'' (JObj [(''id'', JNum 2)]))) \<and>
   returns_envelope_unless False False (fst (removeItem one_user ''users'' (JNum 1))) \<and>
   returns_envelope_unless False False
     (fst (updateItem one_user ''users'' (JObj [(''id'', JNum 1)]))) \<and>
   returns_envelope_unless False False (findItemById one_user ''users'' (JNum 1)) \<and>
   returns_envelope_unless False False (fst (clear one_user ''users'')) \<and>
   returns_envelope_unless False False (fst (clearAll one_user))"
  using envelope_invariant
    [of one_user "''users''" "JArr []" "JObj [(''id'', JNum 2)]" "JNum 1" "JObj [(''id'', JNum 1)]"]
  by (simp add: null_element_def parses_entry_def setItem_def ls_setItem_def
      JSON_stringify_def browser_def)

text \<open>
  An entry written by \<open>set(k, [null])\<close> is a JSON text, and on it \<open>removeById\<close>,
  \<open>updateById\<close> and \<open>findById\<close> return no envelope: they throw a \<open>TypeError\<close>.
\<close>

theorem null_element_throws:
  "parses_entry null_in_array ''k'' \<and>
   fst (removeItem null_in_array ''k'' (JNum 1)) = Inl TypeError \<and>
   fst (updateItem null_in_array ''k'' (JObj [(''id'', JNum 1)])) = Inl TypeError \<and>
   findItemById null_in_array ''k'' (JNum 1) = Inl TypeError"
  by (simp add: parses_entry_def setItem_def ls_setItem_def JSON_stringify_def browser_def
      removeItem_def updateItem_def findItemById_def getArray_def getItem_def Let_def
      success_def failure_def removeArray_def updateArray_def findById_def
      id_is_def id_is_not_def update_one_def)

subsection \<open>Initialising twice\<close>

text \<open>
  C1. After a first successful \<open>initialize(k, d)\<close>, a second \<open>initialize\<close> with the
  same key is meant to fail with \<open>ALREADY_EXISTS\<close>, whatever \<open>d\<close> is. The code tests
  \<open>result || result === null || result === false\<close>, which the stored values \<open>0\<close>
  and \<open>""\<close> do not pass: with either of them the second call succeeds and writes
  again.
\<close>

theorem initializeStorage_twice_falsy:
  "fst (initializeStorage (browser []) ''k'' (JNum 0)) =
     Inr \<lparr>state = True, error = None,
          variables = Some [(''key'', JStr ''k''), (''defaultValue'', JNum 0)], result = None\<rparr> \<and>
   localStorage (snd (initializeStorage (browser []) ''k'' (JNum 0))) ''k'' = Some (Json_text (JNum 0)) \<and>
   fst (initializeStorage (snd (initializeStorage (browser []) ''k'' (JNum 0))) ''k'' (JNum 7)) =
     Inr \<lparr>state = True, error = None,
          variables = Some [(''key'', JStr ''k''), (''defaultValue'', JNum 7)], result = None\<rparr> \<and>
   localStorage (snd (initializeStorage (snd (initializeStorage (browser []) ''k'' (JNum 0))) ''k'' (JNum 7)))
     ''k'' = Some (Json_text (JNum 7)) \<and>
   fst (initializeStorage (browser []) ''k'' (JStr [])) =
     Inr \<lparr>state = True, error = None,
          variables = Some [(''key'', JStr ''k''), (''defaultValue'', JStr [])], result = None\<rparr> \<and>
   fst (initializeStorage (snd (initializeStorage (browser []) ''k'' (JStr []))) ''k'' (JStr [])) =
     Inr \<lparr>state = True, error = None,
          variables = Some [(''key'', JStr ''k''), (''defaultValue'', JStr [])], result = None\<rparr>"
  by (simp add: initializeStorage_def getItem_def failure_def success_def ls_setItem_def
      JSON_stringify_def browser_def)

text \<open>
  In general, once \<open>initialize(k, d)\<close> has succeeded, another \<open>initialize\<close> of the
  same key fails with \<open>ALREADY_EXISTS\<close> exactly when \<open>d\<close> is truthy, \<open>null\<close> or
  \<open>false\<close>.
\<close>

lemma initializeStorage_first:
  assumes "fst (initializeStorage w key d) = Inr r" and "state r"
  shows "window_defined w \<and> key \<noteq> [] \<and> d \<noteq> JUndefined \<and>
         snd (initializeStorage w key d) = ls_setItem key (JSON_stringify d) w"
  using assms
  by (auto simp: initializeStorage_def Let_def getItem_def failure_def success_def
      split: if_splits sum.splits option.splits stored_text.splits)

lemma initializeStorage_existing:
  assumes "window_defined w" and "d' \<noteq> JUndefined"
    and "getItem w key = Inr ((success [(''key'', JStr key)])\<lparr>result := Some j\<rparr>)"
  shows "fst (initializeStorage w key d') =
           (if truthy j \<or> j = JNull \<or> j = JBool False
            then Inr (failure (Some ALREADY_EXISTS) [(''key'', JStr key), (''defaultValue'', d')])
            else Inr (success [(''key'', JStr key), (''defaultValue'', d')]))"
  using assms by (simp add: initializeStorage_def success_def)

lemma initializeStorage_again:
  assumes "fst (initializeStorage w key d) = Inr r" and "state r" and "d' \<noteq> JUndefined"
  shows "fst (initializeStorage (snd (initializeStorage w key d)) key d') =
           (if truthy d \<or> d = JNull \<or> d = JBool False
            then Inr (failure (Some ALREADY_EXISTS) [(''key'', JStr key), (''defaultValue'', d')])
            else Inr (success [(''key'', JStr key), (''defaultValue'', d')]))"
proof -
  let ?w' = "ls_setItem key (JSON_stringify d) w"
  from initializeStorage_first [OF assms(1,2)] have w: "window_defined w" "key \<noteq> []" "d \<noteq> JUndefined"
    and w': "snd (initializeStorage w key d) = ?w'"
    by simp_all
  from w(3) obtain j where j: "to_json d = Some j"
    by (cases d) auto
  then have "is_json j" by (rule is_json_to_json)
  with j w have "getItem ?w' key = Inr ((success [(''key'', JStr key)])\<lparr>result := Some j\<rparr>)"
    by (simp add: getItem_def ls_setItem_def JSON_stringify_def)
  moreover from w(1) have "window_defined ?w'"
    by (simp add: ls_setItem_def)
  ultimately have "fst (initializeStorage ?w' key d') =
           (if truthy j \<or> j = JNull \<or> j = JBool False
            then Inr (failure (Some ALREADY_EXISTS) [(''key'', JStr key), (''defaultValue'', d')])
            else Inr (success [(''key'', JStr key), (''defaultValue'', d')]))"
    using assms(3) by (intro initializeStorage_existing)
  with truthy_to_json [OF j] show ?thesis
    unfolding w' by simp
qed

subsection \<open>A stored null\<close>

text \<open>
  C4. On a key whose entry is the JSON text \<open>null\<close> (here written by \<open>set(k, null)\<close>),
  push, removeById, updateById and findById are meant to fail with \<open>ARRAY_NULL\<close>.
  \<open>_getArray\<close> tests \<open>_isArray\<close> first, which \<open>null\<close> fails, so all four fail with
  \<open>NOT_ARRAY_TYPE\<close>.
\<close>

theorem stored_null_error_code:
  "holds null_entry ''k'' JNull \<and>
   fst (pushItem null_entry ''k'' (JObj [(''id'', JNum 1)])) =
     Inr \<lparr>state = False, error = Some NOT_ARRAY_TYPE,
          variables = Some [(''key'', JStr ''k''), (''item'', JObj [(''id'', JNum 1)])],
          result = None\<rparr> \<and>
   fst (removeItem null_entry ''k'' (JNum 1)) =
     Inr \<lparr>state = False, error = Some NOT_ARRAY_TYPE,
          variables = Some [(''key'', JStr ''k''), (''id'', JNum 1)], result = None\<rparr> \<and>
   fst (updateItem null_entry ''k'' (JObj [(''id'', JNum 1)])) =
     Inr \<lparr>state = False, error = Some NOT_ARRAY_TYPE,
          variables = Some [(''key'', JStr ''k''), (''updatedItem'', JObj [(''id'', JNum 1)])],
          result = None\<rparr> \<and>
   findItemById null_entry ''k'' (JNum 1) =
     Inr \<lparr>state = False, error = Some NOT_ARRAY_TYPE,
          variables = Some [(''key'', JStr ''k''), (''id'', JNum 1)], result = None\<rparr>"
  by (simp add: holds_def pushItem_def removeItem_def updateItem_def findItemById_def getArray_def
      getItem_def setItem_def ls_setItem_def JSON_stringify_def failure_def success_def browser_def)

theorem stored_null_error_code_witness:
  "fst (pushItem null_entry ''k'' (JObj [(''id'', JNum 1)])) \<noteq>
     Inr \<lparr>state = False, error = Some ARRAY_NULL,
          variables = Some [(''key'', JStr ''k''), (''item'', JObj [(''id'', JNum 1)])],
          result = None\<rparr> \<and>
   findItemById null_entry ''k'' (JNum 1) \<noteq>
     Inr \<lparr>state = False, error = Some ARRAY_NULL,
          variables = Some [(''key'', JStr ''k''), (''id'', JNum 1)], result = None\<rparr>"
  using stored_null_error_code
  by simp

text \<open>No stored value makes \<open>_getArray\<close> report \<open>ARRAY_NULL\<close>.\<close>

lemma getArray_never_ARRAY_NULL:
  "getArray w key = Inr p \<Longrightarrow> pick_error p \<noteq> Some ARRAY_NULL"
proof -
  assume p: "getArray w key = Inr p"
  then obtain r where r: "getItem w key = Inr r"
    by (auto simp: getArray_def split: sum.splits)
  have "error r \<noteq> Some ARRAY_NULL"
    using r by (auto simp: getItem_def failure_def success_def
        split: if_splits option.splits stored_text.splits sum.splits)
  moreover have "isArray v \<Longrightarrow> truthy v" for v
    by (cases v) simp_all
  ultimately show ?thesis
    using p r by (auto simp: getArray_def split: if_splits)
qed

subsection \<open>Writing and reading back\<close>

text \<open>
  C5. With the medium available, for every non-empty key and every JSON value \<open>v\<close>,
  \<open>set(k, v)\<close> succeeds, and \<open>get(k)\<close> on the storage it leaves succeeds and returns
  \<open>v\<close>.
\<close>

theorem set_get_roundtrip:
  assumes "window_defined w" and "key \<noteq> []" and "is_json v"
  shows "fst (setItem w key v) =
           Inr \<lparr>state = True, error = None,
                variables = Some [(''key'', JStr key), (''item'', v)], result = None\<rparr> \<and>
         getItem (snd (setItem w key v)) key =
           Inr \<lparr>state = True, error = None,
                variables = Some [(''key'', JStr key)], result = Some v\<rparr>"
  using assms
  by (simp add: setItem_def getItem_def ls_setItem_def JSON_stringify_json success_def)

theorem set_get_roundtrip_witness:
  "window_defined (browser []) \<and> ''user'' \<noteq> [] \<and>
   is_json (JObj [(''id'', JNum 1), (''tags'', JArr [JStr ''a'', JNull, JBool False])]) \<and>
   getItem (snd (setItem (browser []) ''user''
       (JObj [(''id'', JNum 1), (''tags'', JArr [JStr ''a'', JNull, JBool False])]))) ''user'' =
     Inr \<lparr>state = True, error = None, variables = Some [(''key'', JStr ''user'')],
          result = Some (JObj [(''id'', JNum 1), (''tags'', JArr [JStr ''a'', JNull, JBool False])])\<rparr>"
  using set_get_roundtrip [of "browser []" "''user''"
      "JObj [(''id'', JNum 1), (''tags'', JArr [JStr ''a'', JNull, JBool False])]"]
  by (simp add: browser_def)

subsection \<open>Pushing\<close>

lemma pushItem_no_write:
  "snd (pushItem w key item) = w \<or> (\<exists>r. fst (pushItem w key item) = Inr r \<and> state r)"
  by (simp add: pushItem_def Let_def success_def split: sum.splits)

text \<open>
  C7. When the key has no entry (or an empty one), or the entry is the text of a JSON
  value that is not an array, \<open>push(k, item)\<close> returns a failure and leaves the
  storage as it was. More generally, whenever \<open>push\<close> does not return a success (it
  returns a failure or throws), the storage is as it was.
\<close>

theorem push_fails_without_writing:
  "(localStorage w key = None \<or> localStorage w key = Some Empty_text \<or>
      (\<exists>v. localStorage w key = Some (Json_text v) \<and> is_json v \<and> \<not> isArray v) \<longrightarrow>
      (\<exists>r. pushItem w key item = (Inr r, w) \<and> \<not> state r \<and> error r \<noteq> None)) \<and>
   ((\<forall>r. fst (pushItem w key item) = Inr r \<longrightarrow> \<not> state r) \<longrightarrow> snd (pushItem w key item) = w)"
proof (intro conjI impI)
  assume h: "localStorage w key = None \<or> localStorage w key = Some Empty_text \<or>
      (\<exists>v. localStorage w key = Some (Json_text v) \<and> is_json v \<and> \<not> isArray v)"
  have "\<exists>e. getArray w key = Inr \<lparr>pick_error = Some e, pick_result = JNull\<rparr>"
    using h
    by (auto simp: getArray_def getItem_def failure_def success_def)
  then show "\<exists>r. pushItem w key item = (Inr r, w) \<and> \<not> state r \<and> error r \<noteq> None"
    by (auto simp: pushItem_def Let_def failure_def)
next
  assume "\<forall>r. fst (pushItem w key item) = Inr r \<longrightarrow> \<not> state r"
  with pushItem_no_write [of w key item] show "snd (pushItem w key item) = w"
    by blast
qed

theorem push_fails_without_writing_witness:
  "localStorage number_entry ''n'' = Some (Json_text (JNum 5)) \<and>
   is_json (JNum 5) \<and> \<not> isArray (JNum 5) \<and>
   pushItem number_entry ''n'' (JObj [(''id'', JNum 1)]) =
     (Inr \<lparr>state = False, error = Some NOT_ARRAY_TYPE,
           variables = Some [(''key'', JStr ''n''), (''item'', JObj [(''id'', JNum 1)])],
           result = None\<rparr>,
      number_entry) \<and>
   localStorage number_entry ''absent'' = None \<and>
   pushItem number_entry ''absent'' (JObj [(''id'', JNum 1)]) =
     (Inr \<lparr>state = False, error = Some NOT_ASSOCIATED,
           variables = Some [(''key'', JStr ''absent''), (''item'', JObj [(''id'', JNum 1)])],
           result = None\<rparr>,
      number_entry)"
  using push_fails_without_writing
    [of number_entry "''n''" "JObj [(''id'', JNum 1)]"]
  by (simp add: pushItem_def getArray_def getItem_def setItem_def ls_setItem_def
      JSON_stringify_def success_def failure_def browser_def)

subsection \<open>Removing by id\<close>

text \<open>
  C9. For a key that holds an array, \<open>removeById(k, id)\<close> with the id \<open>""\<close> or
  \<open>0\<close> reports success and overwrites the entry with the JSON text \<open>null\<close>:
  \<open>_removeArray\<close> returns \<open>null\<close> for a falsy id and \<open>_removeItem\<close> stores what it
  returns.
\<close>

theorem removeItem_falsy_id:
  assumes "holds w key (JArr xs)" and "ident = JStr [] \<or> ident = JNum 0"
  shows "removeItem w key ident =
           (Inr \<lparr>state = True, error = None,
                 variables = Some [(''key'', JStr key), (''id'', ident)], result = None\<rparr>,
            w\<lparr>localStorage := (localStorage w)(key \<mapsto> Json_text JNull)\<rparr>)"
proof -
  from assms(1) have "window_defined w"
    by (simp add: holds_iff)
  moreover from assms(2) have "removeArray (JArr xs) ident = Inr JNull"
    by (auto simp: removeArray_def)
  ultimately show ?thesis
    using getArray_holds [OF assms(1)]
    by (simp add: removeItem_def ls_setItem_def JSON_stringify_def success_def)
qed

theorem removeItem_falsy_id_witness:
  "holds (browser [(''users'', Json_text (JArr [JObj [(''id'', JNum 0)], JObj [(''id'', JNum 1)]]))])
     ''users'' (JArr [JObj [(''id'', JNum 0)], JObj [(''id'', JNum 1)]]) \<and>
   fst (removeItem (browser [(''users'', Json_text (JArr [JObj [(''id'', JNum 0)], JObj [(''id'', JNum 1)]]))])
     ''users'' (JNum 0)) =
     Inr \<lparr>state = True, error = None,
          variables = Some [(''key'', JStr ''users''), (''id'', JNum 0)], result = None\<rparr> \<and>
   localStorage (snd (removeItem
     (browser [(''users'', Json_text (JArr [JObj [(''id'', JNum 0)], JObj [(''id'', JNum 1)]]))])
     ''users'' (JNum 0))) ''users'' = Some (Json_text JNull)"
  using removeItem_falsy_id
    [of "browser [(''users'', Json_text (JArr [JObj [(''id'', JNum 0)], JObj [(''id'', JNum 1)]]))]"
      "''users''" "[JObj [(''id'', JNum 0)], JObj [(''id'', JNum 1)]]" "JNum 0"]
  by (simp add: holds_iff browser_def)

text \<open>
  C3. Removing an id that no element has is meant to succeed and leave the stored
  array as it is. With the id \<open>0\<close> (or \<open>""\<close>) \<open>_removeArray\<close> returns \<open>null\<close>, and
  \<open>_removeItem\<close>, unlike \<open>_pushItem\<close> and \<open>_updateItem\<close>, stores it unchecked: the
  array \<open>[{id: 1}]\<close> (here written by \<open>set\<close>) is replaced by \<open>null\<close>.
\<close>

theorem removeItem_absent_id_zero:
  "holds one_user ''users'' (JArr [JObj [(''id'', JNum 1)]]) \<and>
   fst (removeItem one_user ''users'' (JNum 0)) =
     Inr \<lparr>state = True, error = None,
          variables = Some [(''key'', JStr ''users''), (''id'', JNum 0)], result = None\<rparr> \<and>
   localStorage (snd (removeItem one_user ''users'' (JNum 0))) ''users'' = Some (Json_text JNull)"
  by (simp add: holds_def removeItem_def removeArray_def getArray_def getItem_def setItem_def
      failure_def success_def ls_setItem_def JSON_stringify_def browser_def)

theorem removeItem_absent_id_zero_witness:
  "localStorage (snd (removeItem one_user ''users'' (JNum 0))) ''users'' \<noteq>
     Some (Json_text (JArr [JObj [(''id'', JNum 1)]]))"
  using removeItem_absent_id_zero
  by simp

text \<open>
  With a truthy id that no element has, and no \<open>null\<close> element, \<open>removeById\<close>
  succeeds and the storage is as it was.
\<close>

lemma filter_exn_keeps_all:
  "JNull \<notin> set xs \<Longrightarrow> JUndefined \<notin> set xs \<Longrightarrow>
   \<forall>a \<in> set xs. \<not> strict_eq (field_of a ''id'') ident \<Longrightarrow>
   filter_exn (id_is_not ident) xs = Inr xs"
proof (induction xs)
  case Nil
  then show ?case by simp
next
  case (Cons a xs)
  then obtain i where "get_prop a ''id'' = Inr i"
    by (cases "get_prop a ''id''") (auto dest: get_prop_throws)
  with Cons show ?case
    by (simp add: id_is_not_def field_of_def)
qed

lemma removeItem_absent_id:
  assumes "holds w key (JArr xs)" and "truthy ident" and "JNull \<notin> set xs"
    and "\<forall>a \<in> set xs. \<not> strict_eq (field_of a ''id'') ident"
  shows "removeItem w key ident = (Inr (success [(''key'', JStr key), (''id'', ident)]), w)"
proof -
  from assms(1) have w: "window_defined w" "localStorage w key = Some (Json_text (JArr xs))"
    and json: "is_json (JArr xs)"
    by (simp_all add: holds_iff)
  from json have "JUndefined \<notin> set xs"
    by (auto simp: list_all_iff)
  with assms have "removeArray (JArr xs) ident = Inr (JArr xs)"
    by (simp add: removeArray_def filter_exn_keeps_all)
  moreover have "w\<lparr>localStorage := (localStorage w)(key \<mapsto> Json_text (JArr xs))\<rparr> = w"
    using w(2) by (simp add: fun_upd_idem)
  ultimately show ?thesis
    using w(1) getArray_holds [OF assms(1)] json
    by (simp add: removeItem_def ls_setItem_def JSON_stringify_json)
qed

subsection \<open>Updating by id\<close>

lemma map_of_replace_prop:
  "map_of (replace_prop k v fs) x = (if x = k \<and> map_of fs k \<noteq> None then Some v else map_of fs x)"
  by (induction fs) auto

lemma map_of_insert_index:
  "k \<notin> fst ` set fs \<Longrightarrow> map_of (insert_index n k v fs) = (map_of fs)(k \<mapsto> v)"
  by (induction fs) (auto simp: fun_eq_iff split: option.splits)

lemma map_of_assign: "map_of (assign k v fs) = (map_of fs)(k \<mapsto> v)"
proof (cases "k \<in> fst ` set fs")
  case True
  then have "map_of fs k \<noteq> None"
    by (simp add: map_of_eq_None_iff)
  with True show ?thesis
    by (auto simp: assign_def map_of_replace_prop fun_eq_iff)
next
  case False
  then have "map_of fs k = None"
    by (simp add: map_of_eq_None_iff)
  with False show ?thesis
    by (auto simp: assign_def map_of_insert_index map_add_def fun_eq_iff split: option.splits)
qed

lemma set_replace_prop: "set (replace_prop k v fs) \<subseteq> insert (k, v) (set fs)"
  by (induction fs) (auto split: if_splits)

lemma set_insert_index: "set (insert_index n k v fs) \<subseteq> insert (k, v) (set fs)"
  by (induction fs) (auto split: if_splits option.splits)

lemma set_assign: "set (assign k v fs) \<subseteq> insert (k, v) (set fs)"
  using set_replace_prop [of k v fs] set_insert_index [of _ k v fs]
  by (auto simp: assign_def split: option.splits)

lemma map_of_fold_assign:
  "distinct (map fst gs) \<Longrightarrow>
     map_of (fold (\<lambda>(k, v). assign k v) gs acc) = map_of acc ++ map_of gs"
proof (induction gs arbitrary: acc)
  case Nil
  then show ?case by simp
next
  case (Cons g gs)
  obtain k v where g: "g = (k, v)" by (cases g)
  with Cons.prems have "map_of gs k = None"
    by (simp add: map_of_eq_None_iff)
  then have swap: "(map_of acc)(k \<mapsto> v) ++ map_of gs = map_of acc ++ (map_of gs)(k \<mapsto> v)"
    by (auto simp: fun_eq_iff map_add_def split: option.splits)
  have "map_of (fold (\<lambda>(k, v). assign k v) (g # gs) acc) =
          map_of (fold (\<lambda>(k, v). assign k v) gs (assign k v acc))"
    by (simp add: g)
  also have "\<dots> = map_of (assign k v acc) ++ map_of gs"
    using Cons.prems by (intro Cons.IH) simp
  also have "\<dots> = (map_of acc)(k \<mapsto> v) ++ map_of gs"
    by (simp only: map_of_assign)
  also have "\<dots> = map_of acc ++ (map_of gs)(k \<mapsto> v)"
    by (rule swap)
  also have "\<dots> = map_of acc ++ map_of (g # gs)"
    by (simp only: g map_of.simps fst_conv snd_conv)
  finally show ?case .
qed

lemma set_fold_assign:
  "set (fold (\<lambda>(k, v). assign k v) gs acc) \<subseteq> set gs \<union> set acc"
proof (induction gs arbitrary: acc)
  case Nil
  then show ?case by simp
next
  case (Cons g gs)
  obtain k v where g: "g = (k, v)" by (cases g)
  from Cons.IH [of "assign k v acc"] set_assign [of k v acc] show ?case
    by (auto simp: g)
qed

lemma spread2_fields:
  assumes "is_record a" and "is_record p"
  shows "get_prop (spread2 a p) f =
           (if f \<in> fst ` set (own_props p) then get_prop p f else get_prop a f)"
proof -
  from assms obtain fa fp where a: "a = JObj fa" "distinct (map fst fa)"
    and p: "p = JObj fp" "distinct (map fst fp)"
    by (cases a; cases p) auto
  have "map_of (fold (\<lambda>(k, v). assign k v) (fa @ fp) []) = map_of fa ++ map_of fp"
    using a(2) p(2) by (simp add: map_of_fold_assign)
  moreover have "f \<in> fst ` set fp \<longleftrightarrow> map_of fp f \<noteq> None"
    by (simp add: map_of_eq_None_iff)
  ultimately show ?thesis
    by (cases "map_of fp f") (simp_all add: a p spread2_def map_add_def)
qed

lemma is_json_spread2:
  assumes "is_json a" and "is_json p" and "is_record a" and "is_record p"
  shows "is_json (spread2 a p)"
proof -
  from assms obtain fa fp where a: "a = JObj fa" and p: "p = JObj fp"
    by (cases a; cases p) auto
  from set_fold_assign [of "fa @ fp" "[]"] assms(1,2) show ?thesis
    by (auto simp: a p spread2_def list_all_iff)
qed

lemma update_one_record:
  "is_record a \<Longrightarrow> is_record p \<Longrightarrow>
     update_one p a = Inr (if strict_eq (field_of a ''id'') (field_of p ''id'') then spread2 a p else a)"
  by (cases a; cases p) (auto simp: update_one_def field_of_def split: option.splits)

lemma map_exn_total: "(\<And>y. y \<in> set ys \<Longrightarrow> f y = Inr (g y)) \<Longrightarrow> map_exn f ys = Inr (map g ys)"
  by (induction ys) auto

text \<open>
  C6. For a key that holds an array of records and a partial record \<open>p\<close>,
  \<open>updateById\<close> succeeds and persists the array in which every element whose \<open>id\<close>
  equals \<open>p.id\<close> is replaced by the merge \<open>{...a, ...p}\<close> and every other element
  is as it was; when \<open>p\<close> is a JSON value the stored text stands for exactly that
  array. In the merge a field of \<open>p\<close> has the value \<open>p\<close> gives it, any other field
  the value it has in the element.
\<close>

theorem updateItem_merges:
  assumes "holds w key (JArr xs)" and "list_all is_record xs" and "is_record p"
  shows "updateItem w key p =
           (Inr \<lparr>state = True, error = None,
                 variables = Some [(''key'', JStr key), (''updatedItem'', p)], result = None\<rparr>,
            ls_setItem key
              (JSON_stringify
                (JArr (map (\<lambda>a. if strict_eq (field_of a ''id'') (field_of p ''id'') then spread2 a p else a) xs)))
              w) \<and>
         (is_json p \<longrightarrow>
            JSON_stringify
              (JArr (map (\<lambda>a. if strict_eq (field_of a ''id'') (field_of p ''id'') then spread2 a p else a) xs)) =
            Some (Json_text
              (JArr (map (\<lambda>a. if strict_eq (field_of a ''id'') (field_of p ''id'') then spread2 a p else a) xs)))) \<and>
         (\<forall>a \<in> set xs. \<forall>f. get_prop (spread2 a p) f =
            (if f \<in> fst ` set (own_props p) then get_prop p f else get_prop a f))"
proof (intro conjI impI ballI allI)
  let ?ys = "map (\<lambda>a. if strict_eq (field_of a ''id'') (field_of p ''id'') then spread2 a p else a) xs"
  from assms(1) have w: "window_defined w" and json: "is_json (JArr xs)"
    by (simp_all add: holds_iff)
  from assms(3) have truthy: "truthy p"
    by (cases p) simp_all
  have "map_exn (update_one p) xs = Inr ?ys"
    using assms(2,3) by (intro map_exn_total update_one_record) (simp_all add: list_all_iff)
  with truthy have "updateArray (JArr xs) p = Inr (JArr ?ys)"
    by (simp add: updateArray_def)
  with w getArray_holds [OF assms(1)]
  show "updateItem w key p =
           (Inr \<lparr>state = True, error = None,
                 variables = Some [(''key'', JStr key), (''updatedItem'', p)], result = None\<rparr>,
            ls_setItem key (JSON_stringify (JArr ?ys)) w)"
    by (simp add: updateItem_def success_def)
  show "JSON_stringify (JArr ?ys) = Some (Json_text (JArr ?ys))" if "is_json p"
  proof (rule JSON_stringify_json)
    show "is_json (JArr ?ys)"
      using json assms(2,3) that by (auto simp: list_all_iff is_json_spread2)
  qed
  show "get_prop (spread2 a p) f =
          (if f \<in> fst ` set (own_props p) then get_prop p f else get_prop a f)"
    if "a \<in> set xs" for a f
    using that assms(2,3) by (intro spread2_fields) (simp_all add: list_all_iff)
qed

theorem updateItem_merges_witness:
  "holds (browser [(''users'', Json_text (JArr [JObj [(''id'', JNum 1), (''name'', JStr ''A''), (''age'', JNum 5)]]))])
     ''users'' (JArr [JObj [(''id'', JNum 1), (''name'', JStr ''A''), (''age'', JNum 5)]]) \<and>
   is_record (JObj [(''id'', JNum 1), (''name'', JStr ''A''), (''age'', JNum 5)]) \<and>
   is_record (JObj [(''id'', JNum 1), (''name'', JStr ''B'')]) \<and>
   localStorage (snd (updateItem
     (browser [(''users'', Json_text (JArr [JObj [(''id'', JNum 1), (''name'', JStr ''A''), (''age'', JNum 5)]]))])
     ''users'' (JObj [(''id'', JNum 1), (''name'', JStr ''B'')]))) ''users'' =
     Some (Json_text (JArr [JObj [(''id'', JNum 1), (''name'', JStr ''B''), (''age'', JNum 5)]]))"
  using updateItem_merges
    [of "browser [(''users'', Json_text (JArr [JObj [(''id'', JNum 1), (''name'', JStr ''A''), (''age'', JNum 5)]]))]"
      "''users''" "[JObj [(''id'', JNum 1), (''name'', JStr ''A''), (''age'', JNum 5)]]"
      "JObj [(''id'', JNum 1), (''name'', JStr ''B'')]"]
  by (simp add: holds_iff browser_def field_of_def spread2_def assign_def array_index_def
      ls_setItem_def JSON_stringify_def)

section \<open>Properties of the array helpers\<close>

subsection \<open>Sorting\<close>

lemma nulls_after_ascending: "nulls_after (ascending L)"
  by (simp add: nulls_after_def)

lemma nulls_after_descending: "nulls_after (descending L)"
  by (simp add: nulls_after_def)

lemma on_field_Inr:
  "on_field f key a b = Inr c \<Longrightarrow>
     \<exists>av bv. get_prop a key = Inr av \<and> get_prop b key = Inr bv \<and> c = f av bv"
  by (auto simp: on_field_def split: sum.splits)

lemma on_field_throws:
  "on_field f key a b = Inl ex \<Longrightarrow>
     ex = TypeError \<and> (a = JNull \<or> a = JUndefined \<or> b = JNull \<or> b = JUndefined)"
  by (auto simp: on_field_def split: sum.splits dest: get_prop_throws get_prop_TypeError)

lemma on_field_null: "on_field f key JNull b = Inl TypeError" "on_field f key a JNull = Inl TypeError"
  by (auto simp: on_field_def split: sum.splits dest: get_prop_TypeError)

text \<open>Two elements that a comparison puts in order have fields, in that order.\<close>

lemma in_order_fields:
  assumes "in_order (on_field f key) a b"
  shows "\<exists>av bv. get_prop a key = Inr av \<and> get_prop b key = Inr bv \<and> (f av bv \<le> 0 \<or> 0 \<le> f bv av)"
  using assms
  by (auto simp: in_order_def on_field_def split: sum.splits)

lemma in_order_null: "\<not> in_order (on_field f key) JNull b" "\<not> in_order (on_field f key) a JNull"
  by (simp_all add: in_order_def on_field_null)

lemma locally_ordered_Cons:
  "locally_ordered cmp (y # zs) \<longleftrightarrow> (zs = [] \<or> in_order cmp y (hd zs)) \<and> locally_ordered cmp zs"
  by (cases zs) auto

lemma nulls_last_absent:
  "list_all (\<lambda>z. \<not> field_present key z) zs \<Longrightarrow> nulls_last key zs"
  by (induction zs) (auto simp: list_all_iff)

lemma nulls_last_append:
  "nulls_last key ys \<Longrightarrow> list_all (\<lambda>z. \<not> field_present key z) zs \<Longrightarrow> nulls_last key (ys @ zs)"
  by (induction ys) (auto simp: list_all_iff nulls_last_absent)

text \<open>
  Where neighbours are in order, a nullish field is never followed by a field with a
  value, next to it or further on.
\<close>

lemma nulls_last_locally_ordered:
  assumes f: "nulls_after f"
  shows "locally_ordered (on_field f key) ps \<Longrightarrow> nulls_last key ps"
proof (induction ps)
  case Nil
  then show ?case by simp
next
  case (Cons x ps)
  then have ps: "nulls_last key ps"
    by (simp add: locally_ordered_Cons)
  show ?case
  proof (cases ps)
    case Nil
    then show ?thesis by simp
  next
    case (Cons y qs)
    with Cons.prems have "in_order (on_field f key) x y"
      by simp
    from in_order_fields [OF this] obtain av bv where
      ab: "get_prop x key = Inr av" "get_prop y key = Inr bv" "f av bv \<le> 0 \<or> 0 \<le> f bv av"
      by blast
    have "loose_null bv" if "loose_null av"
    proof (rule ccontr)
      assume "\<not> loose_null bv"
      with that f have "0 < f av bv" "f bv av < 0"
        by (simp_all add: nulls_after_def)
      with ab(3) show False by simp
    qed
    with ps ab show ?thesis
      by (auto simp: Cons field_nullish_def field_present_def)
  qed
qed

lemma mset_undefined_split:
  "mset (filter (\<lambda>x. x \<noteq> JUndefined) xs) + mset (filter (\<lambda>x. x = JUndefined) xs) = mset xs"
  by (induction xs) auto

text \<open>What a sort returns has the nullish fields last.\<close>

lemma js_sort_returns:
  assumes f: "nulls_after f" and out: "js_sort (on_field f key) xs (Inr ys)"
  shows "mset ys = mset xs \<and> nulls_last key ys"
proof -
  let ?ds = "filter (\<lambda>x. x \<noteq> JUndefined) xs" and ?us = "filter (\<lambda>x. x = JUndefined) xs"
  let ?ps = "take (length ?ds) ys"
  from out have ps: "mset ?ps = mset ?ds" "drop (length ?ds) ys = ?us"
    and ordered: "locally_ordered (on_field f key) ?ps"
    by (simp_all add: js_sort_def Let_def)
  have ys: "ys = ?ps @ ?us"
    using ps(2) append_take_drop_id [of "length ?ds" ys] by simp
  have "mset ys = mset ?ps + mset ?us"
    by (subst ys) simp
  with ps(1) have "mset ys = mset xs"
    by (simp add: mset_undefined_split)
  moreover have "nulls_last key (?ps @ ?us)"
    using nulls_last_locally_ordered [OF f ordered]
    by (rule nulls_last_append) (auto simp: list_all_iff field_present_def)
  with ys have "nulls_last key ys"
    by simp
  ultimately show ?thesis ..
qed

text \<open>A sort throws only a \<open>TypeError\<close>, and only when an element is \<open>null\<close>.\<close>

lemma js_sort_throws:
  assumes "js_sort (on_field f key) xs (Inl ex)"
  shows "ex = TypeError \<and> JNull \<in> set xs \<and> 2 \<le> length (filter (\<lambda>x. x \<noteq> JUndefined) xs)"
proof -
  let ?ds = "filter (\<lambda>x. x \<noteq> JUndefined) xs"
  from assms obtain a b where ab: "a \<in> set ?ds" "b \<in> set ?ds" "on_field f key a b = Inl ex"
    and two: "2 \<le> length ?ds"
    by (auto simp: js_sort_def Let_def list_ex_iff)
  from on_field_throws [OF ab(3)] ab(1,2) have "ex = TypeError" "JNull \<in> set xs"
    by auto
  with two show ?thesis by simp
qed

lemma locally_ordered_neighbour:
  "locally_ordered cmp ps \<Longrightarrow> 2 \<le> length ps \<Longrightarrow> a \<in> set ps \<Longrightarrow>
     \<exists>b. in_order cmp a b \<or> in_order cmp b a"
proof (induction ps)
  case Nil
  then show ?case by simp
next
  case (Cons x ps)
  then obtain y qs where ps: "ps = y # qs"
    by (cases ps) auto
  with Cons.prems(1) have xy: "in_order cmp x y" and rest: "locally_ordered cmp ps"
    by simp_all
  show ?case
  proof (cases "a = x")
    case True
    with xy show ?thesis by blast
  next
    case False
    with Cons.prems(3) have a: "a \<in> set ps" by simp
    show ?thesis
    proof (cases qs)
      case Nil
      with a ps have "a = y" by simp
      with xy show ?thesis by blast
    next
      case (Cons z rs)
      with ps have "2 \<le> length ps" by simp
      from Cons.IH [OF rest this a] show ?thesis .
    qed
  qed
qed

text \<open>With a \<open>null\<close> element and another element to compare it with, a sort does not return.\<close>

lemma js_sort_null_no_return:
  assumes "JNull \<in> set xs" and "2 \<le> length (filter (\<lambda>x. x \<noteq> JUndefined) xs)"
  shows "\<not> js_sort (on_field f key) xs (Inr ys)"
proof
  let ?ds = "filter (\<lambda>x. x \<noteq> JUndefined) xs"
  let ?ps = "take (length ?ds) ys"
  assume "js_sort (on_field f key) xs (Inr ys)"
  then have ps: "mset ?ps = mset ?ds" and ordered: "locally_ordered (on_field f key) ?ps"
    by (simp_all add: js_sort_def Let_def)
  from ps have "length ?ps = length ?ds" "set ?ps = set ?ds"
    by (metis size_mset, metis set_mset_mset)
  with assms have "2 \<le> length ?ps" "JNull \<in> set ?ps"
    by auto
  from locally_ordered_neighbour [OF ordered this] show False
    by (simp add: in_order_null)
qed

text \<open>The insertion sort is one of the sorts of the model.\<close>

lemma mset_insert_by: "insert_by cmp x ys = Inr zs \<Longrightarrow> mset zs = add_mset x (mset ys)"
  by (induction ys arbitrary: zs) (auto split: sum.splits if_splits)

lemma mset_sort_by: "sort_by cmp xs = Inr ys \<Longrightarrow> mset ys = mset xs"
  by (induction xs arbitrary: ys) (auto split: sum.splits dest: mset_insert_by)

lemma hd_insert_by:
  "insert_by cmp x ys = Inr zs \<Longrightarrow>
     zs \<noteq> [] \<and> (hd zs = x \<or> (ys \<noteq> [] \<and> hd zs = hd ys \<and> in_order cmp (hd ys) x))"
  by (cases ys) (auto simp: in_order_def split: sum.splits if_splits)

lemma locally_ordered_insert_by:
  "insert_by cmp x ys = Inr zs \<Longrightarrow> locally_ordered cmp ys \<Longrightarrow> locally_ordered cmp zs"
proof (induction ys arbitrary: zs)
  case Nil
  then show ?case by auto
next
  case (Cons y ys)
  from Cons.prems(1) obtain c where c: "cmp x y = Inr c"
    by (auto split: sum.splits)
  show ?case
  proof (cases "c \<le> 0")
    case True
    with Cons.prems c show ?thesis
      by (auto simp: in_order_def)
  next
    case False
    with Cons.prems(1) c obtain zs' where zs': "insert_by cmp x ys = Inr zs'" "zs = y # zs'"
      by (auto split: sum.splits)
    from Cons.prems(2) have ys: "locally_ordered cmp ys" and y: "ys = [] \<or> in_order cmp y (hd ys)"
      by (simp_all add: locally_ordered_Cons)
    from False c have "in_order cmp y x"
      by (simp add: in_order_def)
    with hd_insert_by [OF zs'(1)] y have "in_order cmp y (hd zs')"
      by auto
    with Cons.IH [OF zs'(1) ys] show ?thesis
      by (simp add: zs'(2) locally_ordered_Cons)
  qed
qed

lemma locally_ordered_sort_by: "sort_by cmp xs = Inr ys \<Longrightarrow> locally_ordered cmp ys"
  by (induction xs arbitrary: ys) (auto split: sum.splits dest: locally_ordered_insert_by)

lemma insert_by_throws: "insert_by cmp x ys = Inl ex \<Longrightarrow> \<exists>b \<in> set ys. cmp x b = Inl ex"
  by (induction ys) (auto split: sum.splits if_splits)

lemma sort_by_throws:
  "sort_by cmp xs = Inl ex \<Longrightarrow>
     2 \<le> length xs \<and> (\<exists>a \<in> set xs. \<exists>b \<in> set xs. cmp a b = Inl ex)"
proof (induction xs arbitrary: ex)
  case Nil
  then show ?case by simp
next
  case (Cons x xs)
  show ?case
  proof (cases "sort_by cmp xs")
    case (Inl e)
    with Cons.prems have "e = ex" by simp
    with Cons.IH [of e] Inl show ?thesis by auto
  next
    case (Inr ys)
    with Cons.prems have "insert_by cmp x ys = Inl ex" by simp
    from insert_by_throws [OF this] obtain b where b: "b \<in> set ys" "cmp x b = Inl ex"
      by blast
    from mset_sort_by [OF Inr] have "set ys = set xs"
      by (metis set_mset_mset)
    with b have "b \<in> set xs" "xs \<noteq> []"
      by auto
    with b(2) show ?thesis
      by (cases xs) auto
  qed
qed

lemma js_sort_insertion_sort: "js_sort cmp xs (insertion_sort cmp xs)"
proof (cases "sort_by cmp (filter (\<lambda>x. x \<noteq> JUndefined) xs)")
  case (Inl ex)
  from sort_by_throws [OF this] show ?thesis
    by (simp add: js_sort_def insertion_sort_def Inl list_ex_iff)
next
  case (Inr ys)
  from mset_sort_by [OF Inr] have "length ys = length (filter (\<lambda>x. x \<noteq> JUndefined) xs)"
    by (metis size_mset)
  with mset_sort_by [OF Inr] locally_ordered_sort_by [OF Inr] show ?thesis
    by (simp add: js_sort_def insertion_sort_def Inr)
qed

text \<open>The outcomes of the two sorts.\<close>

lemma ascendingOrder_outcome:
  assumes "JNull \<notin> set xs" and "ascendingOrder L (JArr xs) key out"
  shows "sorted_nulls_last key xs out"
proof (cases out)
  case (Inl ex)
  with assms(2) have "js_sort (on_field (ascending L) key) xs (Inl ex)"
    by (simp add: ascendingOrder_def)
  from js_sort_throws [OF this] assms(1) show ?thesis by simp
next
  case (Inr res)
  with assms(2) have "isArray res" "js_sort (on_field (ascending L) key) xs (Inr (elements res))"
    by (simp_all add: ascendingOrder_def)
  with js_sort_returns [OF nulls_after_ascending this(2)] show ?thesis
    by (simp add: sorted_nulls_last_def Inr)
qed

lemma descendingOrder_outcome:
  assumes "JNull \<notin> set xs" and "descendingOrder L (JArr xs) key out"
  shows "sorted_nulls_last key xs out"
proof (cases out)
  case (Inl ex)
  with assms(2) have "js_sort (on_field (descending L) key) xs (Inl ex)"
    by (simp add: descendingOrder_def)
  from js_sort_throws [OF this] assms(1) show ?thesis by simp
next
  case (Inr res)
  with assms(2) have "isArray res" "js_sort (on_field (descending L) key) xs (Inr (elements res))"
    by (simp_all add: descendingOrder_def)
  with js_sort_returns [OF nulls_after_descending this(2)] show ?thesis
    by (simp add: sorted_nulls_last_def Inr)
qed

lemma ascendingOrder_ends:
  "ascendingOrder L (JArr xs) key
     (case insertion_sort (on_field (ascending L) key) xs of
        Inl ex \<Rightarrow> Inl ex | Inr ys \<Rightarrow> Inr (JArr ys))"
  using js_sort_insertion_sort [of "on_field (ascending L) key" xs]
  by (cases "insertion_sort (on_field (ascending L) key) xs") (simp_all add: ascendingOrder_def)

lemma descendingOrder_ends:
  "descendingOrder L (JArr xs) key
     (case insertion_sort (on_field (descending L) key) xs of
        Inl ex \<Rightarrow> Inl ex | Inr ys \<Rightarrow> Inr (JArr ys))"
  using js_sort_insertion_sort [of "on_field (descending L) key" xs]
  by (cases "insertion_sort (on_field (descending L) key) xs") (simp_all add: descendingOrder_def)

text \<open>
  C8. For every array with no \<open>null\<close> element and every key, \<open>ascendingOrder\<close> and
  \<open>descendingOrder\<close> end, and end only, by returning the elements of the array with
  every element whose field is \<open>null\<close> or \<open>undefined\<close> after every element whose
  field has a value.
\<close>

theorem sort_places_nulls_last:
  assumes "JNull \<notin> set xs"
  shows "(\<exists>out. ascendingOrder L (JArr xs) key out) \<and>
         (\<forall>out. ascendingOrder L (JArr xs) key out \<longrightarrow> sorted_nulls_last key xs out) \<and>
         (\<exists>out. descendingOrder L (JArr xs) key out) \<and>
         (\<forall>out. descendingOrder L (JArr xs) key out \<longrightarrow> sorted_nulls_last key xs out)"
  using assms ascendingOrder_ends [of L xs key] descendingOrder_ends [of L xs key]
    ascendingOrder_outcome [of xs L key] descendingOrder_outcome [of xs L key]
  by blast

theorem sort_places_nulls_last_witness:
  "JNull \<notin> set [JObj [(''v'', JNull)], JObj [(''v'', JNum 2)], JObj [(''v'', JNum 1)]] \<and>
   ascendingOrder plain_locale
     (JArr [JObj [(''v'', JNull)], JObj [(''v'', JNum 2)], JObj [(''v'', JNum 1)]]) ''v''
     (Inr (JArr [JObj [(''v'', JNum 1)], JObj [(''v'', JNum 2)], JObj [(''v'', JNull)]])) \<and>
   descendingOrder plain_locale
     (JArr [JObj [(''v'', JNull)], JObj [(''v'', JNum 2)], JObj [(''v'', JNum 1)]]) ''v''
     (Inr (JArr [JObj [(''v'', JNum 2)], JObj [(''v'', JNum 1)], JObj [(''v'', JNull)]])) \<and>
   nulls_last ''v'' [JObj [(''v'', JNum 1)], JObj [(''v'', JNum 2)], JObj [(''v'', JNull)]] \<and>
   nulls_last ''v'' [JObj [(''v'', JNum 2)], JObj [(''v'', JNum 1)], JObj [(''v'', JNull)]]"
  using sort_places_nulls_last [where key = "''v''" and L = plain_locale
      and xs = "[JObj [(''v'', JNull)], JObj [(''v'', JNum 2)], JObj [(''v'', JNum 1)]]"]
  by (simp add: ascendingOrder_def descendingOrder_def js_sort_def in_order_def on_field_def
      field_nullish_def field_present_def)

text \<open>
  In the example the element with the \<open>null\<close> field is the last one of every
  outcome, in both directions and in every locale.
\<close>

lemma nulls_last_last:
  "nulls_last key ys \<Longrightarrow> z \<in> set ys \<Longrightarrow> field_nullish key z \<Longrightarrow> \<not> field_present key (last ys)"
proof (induction ys)
  case Nil
  then show ?case by simp
next
  case (Cons y ys)
  show ?case
  proof (cases "ys = []")
    case True
    with Cons.prems show ?thesis
      by (auto simp: field_nullish_def field_present_def split: sum.splits)
  next
    case False
    then have "last ys \<in> set ys" by simp
    with Cons False show ?thesis
      by (auto simp: list_all_iff)
  qed
qed

lemma sort_example_null_last:
  assumes "ascendingOrder L (JArr [JObj [(''v'', JNull)], JObj [(''v'', JNum 2)], JObj [(''v'', JNum 1)]]) ''v'' out \<or>
           descendingOrder L (JArr [JObj [(''v'', JNull)], JObj [(''v'', JNum 2)], JObj [(''v'', JNum 1)]]) ''v'' out"
  shows "\<exists>ys. out = Inr (JArr ys) \<and> length ys = 3 \<and> last ys = JObj [(''v'', JNull)]"
proof -
  let ?xs = "[JObj [(''v'', JNull)], JObj [(''v'', JNum 2)], JObj [(''v'', JNum 1)]]"
  have "JNull \<notin> set ?xs" by simp
  with assms have "sorted_nulls_last ''v'' ?xs out"
    using ascendingOrder_outcome descendingOrder_outcome by blast
  then obtain res where res: "out = Inr res" "isArray res" "mset (elements res) = mset ?xs"
      "nulls_last ''v'' (elements res)"
    by (cases out) (simp_all add: sorted_nulls_last_def)
  define ys where "ys = elements res"
  from res(2) have arr: "res = JArr ys"
    unfolding ys_def by (cases res) simp_all
  from res(3) have "size (mset ys) = size (mset ?xs)" "set_mset (mset ys) = set_mset (mset ?xs)"
    unfolding ys_def by simp_all
  then have len: "length ys = 3" and elems: "set ys = set ?xs"
    by simp_all
  from len have "ys \<noteq> []" by auto
  then have "last ys \<in> set ?xs"
    using elems last_in_set by blast
  moreover have "field_nullish ''v'' (JObj [(''v'', JNull)])"
    by (simp add: field_nullish_def)
  then have "\<not> field_present ''v'' (last ys)"
    using res(4) elems by (intro nulls_last_last [of "''v''" ys "JObj [(''v'', JNull)]"]) (simp_all add: ys_def)
  ultimately have "last ys = JObj [(''v'', JNull)]"
    by (auto simp: field_present_def)
  with res(1) arr len show ?thesis by simp
qed

text \<open>
  With a \<open>null\<close> element next to another element both sorts throw: reading the field
  of \<open>null\<close> is a \<open>TypeError\<close>.
\<close>

theorem sort_null_element_throws:
  "ascendingOrder plain_locale (JArr [JNull, JObj [(''v'', JNum 1)]]) ''v'' (Inl TypeError) \<and>
   \<not> (\<exists>res. ascendingOrder plain_locale (JArr [JNull, JObj [(''v'', JNum 1)]]) ''v'' (Inr res)) \<and>
   descendingOrder plain_locale (JArr [JNull, JObj [(''v'', JNum 1)]]) ''v'' (Inl TypeError) \<and>
   \<not> (\<exists>res. descendingOrder plain_locale (JArr [JNull, JObj [(''v'', JNum 1)]]) ''v'' (Inr res))"
proof -
  have "\<not> js_sort (on_field f ''v'') [JNull, JObj [(''v'', JNum 1)]] (Inr ys)" for f ys
    by (rule js_sort_null_no_return) simp_all
  then show ?thesis
    by (simp add: ascendingOrder_def descendingOrder_def js_sort_def on_field_def)
qed

subsection \<open>Removing duplicates\<close>

lemma fold_Set_fresh:
  "fold (\<lambda>x acc. if x \<in> set acc then acc else acc @ [x]) xs acc = acc @ fresh (set acc) xs"
  by (induction xs arbitrary: acc) auto

lemma js_Set_fresh: "js_Set xs = fresh {} xs"
  by (simp add: js_Set_def fold_Set_fresh)

lemma fresh_Cons:
  "fresh seen (y # ys) = (if y \<in> seen then [] else [y]) @ fresh (insert y seen) ys"
  by (simp add: insert_absorb)

lemma fresh_indices:
  "fresh seen ys = map (\<lambda>i. ys ! i) (filter (\<lambda>i. ys ! i \<notin> seen \<union> set (take i ys)) [0..<length ys])"
proof (induction ys arbitrary: seen)
  case Nil
  then show ?case by simp
next
  case (Cons y ys)
  have upt: "[0..<length (y # ys)] = 0 # map Suc [0..<length ys]"
    by (simp add: upt_conv_Cons map_Suc_upt del: upt_Suc)
  have "map (\<lambda>i. (y # ys) ! i)
          (filter (\<lambda>i. (y # ys) ! i \<notin> seen \<union> set (take i (y # ys))) [0..<length (y # ys)]) =
        (if y \<in> seen then [] else [y]) @
        map (\<lambda>i. ys ! i) (filter (\<lambda>i. ys ! i \<notin> insert y seen \<union> set (take i ys)) [0..<length ys])"
    unfolding upt by (simp add: filter_map comp_def conj_left_commute)
  then show ?case
    unfolding fresh_Cons Cons.IH by simp
qed

lemma js_Set_first_occurrences: "js_Set xs = first_occurrences xs"
  by (simp add: js_Set_fresh fresh_indices first_occurrences_def)

lemma fresh_map_inj: "inj h \<Longrightarrow> fresh (h ` seen) (map h ys) = map h (fresh seen ys)"
proof (induction ys arbitrary: seen)
  case Nil
  then show ?case by simp
next
  case (Cons y ys)
  from Cons.prems have "h y \<in> h ` seen \<longleftrightarrow> y \<in> seen"
    by (simp add: inj_image_mem_iff)
  moreover have "insert (h y) (h ` seen) = h ` insert y seen"
    by simp
  ultimately show ?case
    using Cons.IH [OF Cons.prems] by (simp del: image_insert)
qed

lemma first_occurrences_map_inj:
  "inj h \<Longrightarrow> first_occurrences (map h ys) = map h (first_occurrences ys)"
  using fresh_map_inj [of h "{}" ys]
  by (simp flip: js_Set_first_occurrences add: js_Set_fresh)

lemma set_first_occurrences: "set (first_occurrences ys) = set ys"
proof -
  have "set (fresh seen ys) = set ys - seen" for seen
    by (induction ys arbitrary: seen) auto
  then show ?thesis
    by (simp flip: js_Set_first_occurrences add: js_Set_fresh)
qed

lemma map_exn_returns:
  "(\<And>z. z \<in> set zs \<Longrightarrow> f (h z) = Inr z) \<Longrightarrow> map_exn f (map h zs) = Inr zs"
  by (induction zs) auto

lemma map_exn_throws_only:
  assumes "\<And>y e. f y = Inl e \<Longrightarrow> e = err"
  shows "\<exists>y \<in> set ys. \<exists>e. f y = Inl e \<Longrightarrow> map_exn f ys = Inl err"
proof (induction ys)
  case Nil
  then show ?case by simp
next
  case (Cons y ys)
  show ?case
  proof (cases "f y")
    case (Inl e)
    with assms show ?thesis by simp
  next
    case (Inr v)
    with Cons.prems have "\<exists>y \<in> set ys. \<exists>e. f y = Inl e" by auto
    from Cons.IH [OF this] Inr show ?thesis by simp
  qed
qed

lemma removeDuplicates_eq:
  "removeDuplicates (JArr xs) =
     (if JUndefined \<in> set xs then Inl SyntaxError
      else Inr (JArr (first_occurrences (map json_form xs))))"
proof (cases "JUndefined \<in> set xs")
  case True
  moreover have "JSON_stringify JUndefined = None"
    by (simp add: JSON_stringify_def)
  ultimately have "None \<in> JSON_stringify ` set xs"
    by (metis image_eqI)
  then have "None \<in> set (js_Set (map JSON_stringify xs))"
    by (simp add: js_Set_first_occurrences set_first_occurrences)
  then have "\<exists>t \<in> set (js_Set (map JSON_stringify xs)). \<exists>e. JSON_parse (to_text t) = Inl e"
    by (rule rev_bexI) simp
  then have "map_exn (\<lambda>item. JSON_parse (to_text item)) (js_Set (map JSON_stringify xs)) = Inl SyntaxError"
    by (rule map_exn_throws_only [rotated]) (rule JSON_parse_throws)
  with True show ?thesis
    by (simp add: removeDuplicates_def)
next
  case False
  let ?zs = "first_occurrences (map json_form xs)"
  have defined: "x \<noteq> JUndefined" if "x \<in> set xs" for x
    using that False by blast
  have texts: "map JSON_stringify xs = map (\<lambda>v. Some (Json_text v)) (map json_form xs)"
    by (simp add: JSON_stringify_defined(1) [OF defined])
  have "js_Set (map JSON_stringify xs) =
          first_occurrences (map (\<lambda>v. Some (Json_text v)) (map json_form xs))"
    unfolding texts by (rule js_Set_first_occurrences)
  also have "\<dots> = map (\<lambda>v. Some (Json_text v)) ?zs"
    by (rule first_occurrences_map_inj) (simp add: inj_def)
  finally have "js_Set (map JSON_stringify xs) = map (\<lambda>v. Some (Json_text v)) ?zs" .
  moreover have "JSON_parse (to_text (Some (Json_text z))) = Inr z" if "z \<in> set ?zs" for z
    using that JSON_stringify_defined(2) [OF defined] by (auto simp: set_first_occurrences)
  then have "map_exn (\<lambda>item. JSON_parse (to_text item)) (map (\<lambda>v. Some (Json_text v)) ?zs) = Inr ?zs"
    by (rule map_exn_returns)
  ultimately have "map_exn (\<lambda>item. JSON_parse (to_text item)) (js_Set (map JSON_stringify xs)) = Inr ?zs"
    by simp
  with False show ?thesis
    by (simp add: removeDuplicates_def)
qed

text \<open>
  C10. For every array of JSON values (no \<open>undefined\<close> in it, at any depth),
  \<open>removeDuplicates\<close> returns the elements in the order of the first occurrence of
  each distinct value: the first occurrence is kept and the later duplicates are
  dropped. For every array it throws a \<open>SyntaxError\<close> when an element is
  \<open>undefined\<close>, and otherwise returns the first occurrences of the elements as they
  are read back from their JSON texts.
\<close>

theorem removeDuplicates_first_occurrences:
  "removeDuplicates (JArr xs) =
     (if JUndefined \<in> set xs then Inl SyntaxError
      else Inr (JArr (first_occurrences (map json_form xs)))) \<and>
   (list_all is_json xs \<longrightarrow> removeDuplicates (JArr xs) = Inr (JArr (first_occurrences xs)))"
proof (intro conjI impI)
  show "removeDuplicates (JArr xs) =
     (if JUndefined \<in> set xs then Inl SyntaxError
      else Inr (JArr (first_occurrences (map json_form xs))))"
    by (rule removeDuplicates_eq)
next
  assume json: "list_all is_json xs"
  then have "map json_form xs = xs"
    by (simp add: list_all_iff json_form_id map_idI)
  moreover from json have "JUndefined \<notin> set xs"
    by (auto simp: list_all_iff)
  ultimately show "removeDuplicates (JArr xs) = Inr (JArr (first_occurrences xs))"
    by (simp add: removeDuplicates_eq)
qed

theorem removeDuplicates_first_occurrences_witness:
  "list_all is_json [JObj [(''a'', JNum 2)], JObj [(''a'', JNum 1)], JObj [(''a'', JNum 2)],
     JStr ''x'', JObj [(''a'', JNum 1)]] \<and>
   removeDuplicates (JArr [JObj [(''a'', JNum 2)], JObj [(''a'', JNum 1)], JObj [(''a'', JNum 2)],
     JStr ''x'', JObj [(''a'', JNum 1)]]) =
     Inr (JArr [JObj [(''a'', JNum 2)], JObj [(''a'', JNum 1)], JStr ''x''])"
  using removeDuplicates_first_occurrences
    [of "[JObj [(''a'', JNum 2)], JObj [(''a'', JNum 1)], JObj [(''a'', JNum 2)],
      JStr ''x'', JObj [(''a'', JNum 1)]]", THEN conjunct2]
  by (simp add: first_occurrences_def upt_conv_Cons)

text \<open>
  An \<open>undefined\<close> element has no JSON text and \<open>JSON.parse\<close> throws on it: nothing
  is returned. An \<open>undefined\<close> inside an element is read back as \<open>null\<close>: what is
  returned is not the element, and \<open>[undefined]\<close> and \<open>[null]\<close> count as duplicates.
\<close>

theorem removeDuplicates_undefined_element:
  "removeDuplicates (JArr [JNum 1, JUndefined]) = Inl SyntaxError \<and>
   removeDuplicates (JArr [JArr [JUndefined], JArr [JNull]]) = Inr (JArr [JArr [JNull]])"
  by (simp add: removeDuplicates_def js_Set_def JSON_stringify_def)

end
